theory Spec2Isabelle
  imports Complex_Main "HOL-Library.AList" "HOL-Library.Option_ord" "HOL-Library.Product_Lexorder"
begin

section \<open>Data model of the authoring layout (form_config.json)\<close>

text \<open>
  A JSON number is a Python \<open>int\<close> or a Python \<open>float\<close> (an IEEE 754 double). It is modelled
  by its exact value, a rational: comparisons between Python numbers are exact, so they are
  comparisons of the values. Arithmetic on floats rounds: \<open>float_sub\<close>, \<open>float_mul\<close> and
  \<open>float_div\<close> below give the value of the double that the Python operation returns. The
  model follows the source for integers of magnitude below \<open>2^52\<close> (which convert to floats
  without rounding, and whose differences are the same as integers and as floats) and for
  finite doubles, as long as no result overflows; infinities and NaN are outside the type.

  A bounding box is a JSON array of four numbers \<open>[b[0], b[1], b[2], b[3]]\<close>, modelled as a
  4-tuple. A Python \<open>str\<close> is a sequence of Unicode code points, so the text of a field is a
  list of code points; identifiers and descriptions, which are never inspected character by
  character, are plain strings.
\<close>

type_synonym num = rat
type_synonym bounds = "num \<times> num \<times> num \<times> num"
type_synonym codepoint = nat
type_synonym ustring = "codepoint list"

text \<open>
  Rounding to the nearest double, ties to even. \<open>bit_length n\<close> is the number of binary
  digits of \<open>n > 0\<close>. For \<open>a > 0\<close>, \<open>binary_exponent a\<close> is the \<open>k\<close> with
  \<open>2^k \<le> a < 2^(k+1)\<close>; the doubles around \<open>a\<close> are the multiples of \<open>2^(k-52)\<close> (of
  \<open>2^(-1074)\<close> in the subnormal range).
\<close>

definition pow2 :: "int \<Rightarrow> rat" where
  "pow2 k = (if 0 \<le> k then 2 ^ nat k else 1 / 2 ^ nat (- k))"

function bit_length :: "int \<Rightarrow> nat" where
  "bit_length n = (if n \<le> 0 then 0 else Suc (bit_length (n div 2)))"
  by pat_completeness auto
termination
  by (relation "measure nat") auto

declare bit_length.simps [simp del]

definition binary_exponent :: "rat \<Rightarrow> int" where
  "binary_exponent a =
     (if 1 \<le> a then int (bit_length \<lfloor>a\<rfloor>) - 1
      else - int (bit_length (\<lceil>1 / a\<rceil> - 1)))"

definition round_half_even :: "rat \<Rightarrow> int" where
  "round_half_even y =
     (let f = \<lfloor>y\<rfloor>; d = y - of_int f
      in if d < 1 / 2 then f
         else if 1 / 2 < d then f + 1
         else if even f then f else f + 1)"

definition round_double :: "rat \<Rightarrow> rat" where
  "round_double x =
     (if x = 0 then 0
      else
        (let a = \<bar>x\<bar>;
             ulp = pow2 (max (binary_exponent a - 52) (- 1074))
         in sgn x * of_int (round_half_even (a / ulp)) * ulp))"

text \<open>
  The float operations of Python on the values of their operands: the exact result,
  rounded once. (The division is used after the test for a zero divisor.)
\<close>

definition float_sub :: "num \<Rightarrow> num \<Rightarrow> num" where
  "float_sub x y = round_double (x - y)"

definition float_mul :: "num \<Rightarrow> num \<Rightarrow> num" where
  "float_mul x y = round_double (x * y)"

definition float_div :: "num \<Rightarrow> num \<Rightarrow> num" where
  "float_div x y = round_double (x / y)"


text \<open>
  The normal range of doubles: zero, and the magnitudes from \<open>2^(-1022)\<close> on, where a
  double carries 53 significant bits.
\<close>

definition normal_range :: "rat \<Rightarrow> bool" where
  "normal_range x = (x = 0 \<or> pow2 (- 1022) \<le> \<bar>x\<bar>)"

fun b0 :: "bounds \<Rightarrow> num" where "b0 (a, b, c, d) = a"
fun b1 :: "bounds \<Rightarrow> num" where "b1 (a, b, c, d) = b"
fun b2 :: "bounds \<Rightarrow> num" where "b2 (a, b, c, d) = c"
fun b3 :: "bounds \<Rightarrow> num" where "b3 (a, b, c, d) = d"

text \<open>\<open>text_content\<close>: every key is optional (\<open>None\<close>: the key is absent).\<close>

record text_content =
  tc_content :: "ustring option"
  tc_font :: "string option"
  tc_text_size :: "num option"
  tc_text_color :: "string option"

record field_entry =
  fe_description :: string
  fe_page_num :: int
  fe_label_bounds :: bounds
  fe_entry_bounds :: bounds
  fe_text_content :: "text_content option"

section \<open>verify_form_layout.py\<close>

text \<open>
  The two values of \<open>bounds_type\<close> (the label box and the entry box of a field).
\<close>

datatype bounds_type = Label_box | Entry_box

text \<open>
  \<open>BoundsAndEntry\<close>. The source compares entries by object identity (\<open>bi.entry is bj.entry\<close>);
  \<open>bae_entry_ix\<close> is the position of the entry in \<open>field_entries\<close>, which identifies the object.
\<close>

record BoundsAndEntry =
  bae_bounds :: bounds
  bae_bounds_type :: bounds_type
  bae_entry :: field_entry
  bae_entry_ix :: nat

text \<open>
  The messages of the validator. Each constructor is one message template of the source,
  with the values the template interpolates:
  the count line, the label/entry overlap of one field, the overlap of two boxes of
  different fields, the height failure, the truncation notice and the success line.
\<close>

datatype message =
    Read_count nat
  | Fail_same_entry_overlap string bounds bounds
  | Fail_overlap string bounds_type bounds string bounds_type bounds
  | Fail_height string num num
  | Abort_notice
  | Success

definition bounds_overlap :: "bounds \<Rightarrow> bounds \<Rightarrow> bool" where
  "bounds_overlap x y =
     (let no_horizontal_overlap = (b0 x \<ge> b2 y \<or> b2 x \<le> b0 y);
          no_vertical_overlap = (b1 x \<ge> b3 y \<or> b3 x \<le> b1 y)
      in \<not> (no_horizontal_overlap \<or> no_vertical_overlap))"

definition make_bounds_list :: "field_entry list \<Rightarrow> BoundsAndEntry list" where
  "make_bounds_list entries =
     concat (map (\<lambda>(ix, e).
        [\<lparr>bae_bounds = fe_label_bounds e, bae_bounds_type = Label_box, bae_entry = e, bae_entry_ix = ix\<rparr>,
         \<lparr>bae_bounds = fe_entry_bounds e, bae_bounds_type = Entry_box, bae_entry = e, bae_entry_ix = ix\<rparr>])
       (enumerate 0 entries))"

text \<open>The condition of the inner loop's \<open>if\<close>, and the message it appends.\<close>

definition pair_reported :: "BoundsAndEntry \<Rightarrow> BoundsAndEntry \<Rightarrow> bool" where
  "pair_reported bi bj =
     (fe_page_num (bae_entry bi) = fe_page_num (bae_entry bj) \<and> bounds_overlap (bae_bounds bi) (bae_bounds bj))"

definition pair_message :: "BoundsAndEntry \<Rightarrow> BoundsAndEntry \<Rightarrow> message" where
  "pair_message bi bj =
     (if bae_entry_ix bi = bae_entry_ix bj
      then Fail_same_entry_overlap (fe_description (bae_entry bi)) (bae_bounds bi) (bae_bounds bj)
      else Fail_overlap (fe_description (bae_entry bi)) (bae_bounds_type bi) (bae_bounds bi)
                        (fe_description (bae_entry bj)) (bae_bounds_type bj) (bae_bounds bj))"

text \<open>
  The loops thread \<open>(messages, found_error)\<close>. \<open>Inl messages\<close> is the early \<open>return messages\<close>
  after the truncation notice; \<open>Inr\<close> is the state with which the loop goes on.
\<close>

type_synonym vstate = "message list \<times> bool"

text \<open>The inner loop: \<open>bi\<close> against every later box \<open>bj\<close> of the list.\<close>

fun check_pairs :: "BoundsAndEntry \<Rightarrow> BoundsAndEntry list \<Rightarrow> vstate \<Rightarrow> message list + vstate" where
  "check_pairs bi [] st = Inr st"
| "check_pairs bi (bj # rest) (messages, found_error) =
     (if pair_reported bi bj then
        (let messages' = messages @ [pair_message bi bj] in
         if length messages' \<ge> 20 then Inl (messages' @ [Abort_notice])
         else check_pairs bi rest (messages', True))
      else check_pairs bi rest (messages, found_error))"

text \<open>The height check that follows the inner loop for an entry box.\<close>

definition check_height :: "BoundsAndEntry \<Rightarrow> vstate \<Rightarrow> message list + vstate" where
  "check_height bi st =
     (case st of (messages, found_error) \<Rightarrow>
      if bae_bounds_type bi = Entry_box then
        (case fe_text_content (bae_entry bi) of
           None \<Rightarrow> Inr st
         | Some tc \<Rightarrow>
            (let text_size = (case tc_text_size tc of None \<Rightarrow> 14 | Some s \<Rightarrow> s);
                 entry_height = float_sub (b3 (bae_bounds bi)) (b1 (bae_bounds bi))
             in if entry_height < text_size then
                  (let messages' = messages @ [Fail_height (fe_description (bae_entry bi)) entry_height text_size] in
                   if length messages' \<ge> 20 then Inl (messages' @ [Abort_notice])
                   else Inr (messages', True))
                else Inr st))
      else Inr st)"

text \<open>The outer loop over \<open>bounds_list\<close>.\<close>

fun check_boxes :: "BoundsAndEntry list \<Rightarrow> vstate \<Rightarrow> message list + vstate" where
  "check_boxes [] st = Inr st"
| "check_boxes (bi # rest) st =
     (case check_pairs bi rest st of
        Inl ms \<Rightarrow> Inl ms
      | Inr st' \<Rightarrow>
         (case check_height bi st' of
            Inl ms \<Rightarrow> Inl ms
          | Inr st'' \<Rightarrow> check_boxes rest st''))"

definition validate_form_layout :: "field_entry list \<Rightarrow> message list" where
  "validate_form_layout field_entries =
     (case check_boxes (make_bounds_list field_entries) ([Read_count (length field_entries)], False) of
        Inl ms \<Rightarrow> ms
      | Inr (messages, found_error) \<Rightarrow>
          if \<not> found_error then messages @ [Success] else messages)"

text \<open>
  The findings the loops produce when nothing stops them, in the order of the loops:
  for each box in turn, the overlaps with the later boxes, then its height failure.
\<close>

definition pair_findings :: "BoundsAndEntry \<Rightarrow> BoundsAndEntry list \<Rightarrow> message list" where
  "pair_findings bi rest = map (pair_message bi) (filter (pair_reported bi) rest)"

definition height_findings :: "BoundsAndEntry \<Rightarrow> message list" where
  "height_findings bi =
     (if bae_bounds_type bi = Entry_box then
        (case fe_text_content (bae_entry bi) of
           None \<Rightarrow> []
         | Some tc \<Rightarrow>
            (let text_size = (case tc_text_size tc of None \<Rightarrow> 14 | Some s \<Rightarrow> s);
                 entry_height = float_sub (b3 (bae_bounds bi)) (b1 (bae_bounds bi))
             in if entry_height < text_size
                then [Fail_height (fe_description (bae_entry bi)) entry_height text_size] else []))
      else [])"

fun all_findings :: "BoundsAndEntry list \<Rightarrow> message list" where
  "all_findings [] = []"
| "all_findings (bi # rest) = pair_findings bi rest @ height_findings bi @ all_findings rest"

text \<open>
  Appending a batch of findings to a state under the cap of the source: the state goes on
  while fewer than 20 messages are held, and the run returns with the truncation notice
  as soon as the 20th message is appended.
\<close>

definition emit :: "vstate \<Rightarrow> message list \<Rightarrow> message list + vstate" where
  "emit st fs = (case st of (ms, f) \<Rightarrow>
     if length ms + length fs < 20 then Inr (ms @ fs, f \<or> fs \<noteq> [])
     else Inl (take 20 (ms @ fs) @ [Abort_notice]))"

text \<open>The layout of \<open>test_multiple_errors_limit\<close>: 25 fields whose boxes all overlap.\<close>

definition overlapping_entry :: "string \<Rightarrow> field_entry" where
  "overlapping_entry d =
     \<lparr>fe_description = d, fe_page_num = 1, fe_label_bounds = (10, 10, 50, 30),
      fe_entry_bounds = (20, 15, 60, 35), fe_text_content = None\<rparr>"

definition overlapping_25 :: "field_entry list" where
  "overlapping_25 = map overlapping_entry
     [''Field0'', ''Field1'', ''Field2'', ''Field3'', ''Field4'', ''Field5'', ''Field6'',
      ''Field7'', ''Field8'', ''Field9'', ''Field10'', ''Field11'', ''Field12'', ''Field13'',
      ''Field14'', ''Field15'', ''Field16'', ''Field17'', ''Field18'', ''Field19'', ''Field20'',
      ''Field21'', ''Field22'', ''Field23'', ''Field24'']"

section \<open>apply_text_overlays.py\<close>

text \<open>
  The errors of the Python run that the models below can end in: \<open>sys.exit(1)\<close> and the
  exceptions that the source does not catch.
\<close>

datatype py_error =
    SystemExit
  | KeyError
  | IndexError
  | StopIteration
  | ZeroDivisionError
  | AttributeError

text \<open>\<open>CJK_FONT_PATHS\<close>: a dict, iterated in insertion order.\<close>

definition CJK_FONT_PATHS :: "(string \<times> string) list" where
  "CJK_FONT_PATHS =
     [(''/System/Library/Fonts/PingFang.ttc'', ''PingFang''),
      (''/System/Library/Fonts/STHeiti Light.ttc'', ''STHeiti''),
      (''/Library/Fonts/Arial Unicode.ttf'', ''ArialUnicode''),
      (''C:/Windows/Fonts/msyh.ttc'', ''MicrosoftYaHei''),
      (''C:/Windows/Fonts/simsun.ttc'', ''SimSun''),
      (''C:/Windows/Fonts/simhei.ttf'', ''SimHei''),
      (''/usr/share/fonts/truetype/droid/DroidSansFallbackFull.ttf'', ''DroidSansFallback''),
      (''/usr/share/fonts/opentype/noto/NotoSansCJK-Regular.ttc'', ''NotoSansCJK''),
      (''/usr/share/fonts/truetype/wqy/wqy-zenhei.ttc'', ''WenQuanYi'')]"

definition is_cjk_code :: "codepoint \<Rightarrow> bool" where
  "is_cjk_code code =
     ((0x4E00 \<le> code \<and> code \<le> 0x9FFF) \<or>
      (0x3400 \<le> code \<and> code \<le> 0x4DBF) \<or>
      (0x3000 \<le> code \<and> code \<le> 0x303F) \<or>
      (0xFF00 \<le> code \<and> code \<le> 0xFFEF) \<or>
      (0x3040 \<le> code \<and> code \<le> 0x309F) \<or>
      (0x30A0 \<le> code \<and> code \<le> 0x30FF) \<or>
      (0xAC00 \<le> code \<and> code \<le> 0xD7AF))"

fun has_cjk_characters :: "ustring \<Rightarrow> bool" where
  "has_cjk_characters [] = False"
| "has_cjk_characters (code # rest) = (if is_cjk_code code then True else has_cjk_characters rest)"

text \<open>
  What the run asks of the platform and of the libraries: whether a path exists
  (\<open>os.path.exists\<close>), whether registering a font file succeeds
  (\<open>pdfmetrics.registerFont(TTFont(name, path))\<close> does not raise), whether the canvas knows
  a font name (\<open>setFont\<close> does not raise) and whether a colour string parses (\<open>HexColor\<close>
  does not raise).
\<close>

record platform =
  path_exists :: "string \<Rightarrow> bool"
  register_ok :: "string \<Rightarrow> string \<Rightarrow> bool"
  set_font_ok :: "string \<Rightarrow> bool"
  hex_color_ok :: "string \<Rightarrow> bool"

text \<open>The lines the overlay tool prints, one constructor for each template.\<close>

datatype overlay_message =
    Warn_register_failed string
  | Using_embedded_font string
  | Err_cjk_font_missing
  | Note_placeholder_squares
  | Blank_line
  | Hint_install_font
  | Hint_macos
  | Hint_windows
  | Hint_linux
  | Supported_paths_header
  | Supported_path string string
  | Saved_to_output
  | Overlay_count nat
  | Overlay_count_embedded nat

fun find_in_paths :: "platform \<Rightarrow> (string \<times> string) list \<Rightarrow> (string \<times> string) option" where
  "find_in_paths env [] = None"
| "find_in_paths env ((font_path, font_name) # rest) =
     (if path_exists env font_path then Some (font_path, font_name) else find_in_paths env rest)"

definition find_cjk_font :: "platform \<Rightarrow> (string \<times> string) option" where
  "find_cjk_font env = find_in_paths env CJK_FONT_PATHS"

text \<open>Returns what was printed and the registered font name (\<open>None\<close> as in the source).\<close>

definition register_cjk_font :: "platform \<Rightarrow> overlay_message list \<times> string option" where
  "register_cjk_font env =
     (case find_cjk_font env of
        None \<Rightarrow> ([], None)
      | Some (font_path, font_name) \<Rightarrow>
          if register_ok env font_name font_path then ([], Some font_name)
          else ([Warn_register_failed font_name], None))"

text \<open>
  Division by zero raises in Python, for integers and for floats; the two scales are
  computed before anything else. \<open>pdf_width\<close> and \<open>pdf_height\<close> are floats
  (\<open>float(mediabox.width)\<close>), so every operation is a float operation.
\<close>

definition convert_image_to_pdf_coords ::
    "bounds \<Rightarrow> num \<Rightarrow> num \<Rightarrow> num \<Rightarrow> num \<Rightarrow> py_error + (num \<times> num \<times> num \<times> num)" where
  "convert_image_to_pdf_coords bbox img_width img_height pdf_width pdf_height =
     (if img_width = 0 then Inl ZeroDivisionError
      else if img_height = 0 then Inl ZeroDivisionError
      else
        (let x_scale = float_div pdf_width img_width;
             y_scale = float_div pdf_height img_height;
             left = float_mul (b0 bbox) x_scale;
             right = float_mul (b2 bbox) x_scale;
             top' = float_sub pdf_height (float_mul (b1 bbox) y_scale);
             bottom = float_sub pdf_height (float_mul (b3 bbox) y_scale)
         in Inr (left, bottom, right, top')))"

text \<open>
  The layout file: \<open>field_entries\<close> and \<open>page_dimensions\<close>. The input document, as far as
  this repository reads it: the field table (\<open>get_fields()\<close>, which is \<open>None\<close> for a document
  without fields) and the pages, each with its media box (width, height) and its
  annotations. The annotation and field types follow under parse_form_structure.py.
\<close>

record page_dimension =
  pd_page_num :: int
  pd_img_width :: num
  pd_img_height :: num

record config =
  field_entries :: "field_entry list"
  page_dimensions :: "page_dimension list"

text \<open>
  \<open>pdf_dims\<close> is the dict \<open>{idx + 1: [width, height]}\<close> over the pages; a lookup of a page
  number outside \<open>1..len(pages)\<close> raises KeyError.
\<close>

definition pdf_dims_lookup :: "(num \<times> num) list \<Rightarrow> int \<Rightarrow> py_error + (num \<times> num)" where
  "pdf_dims_lookup mediaboxes page_num =
     (if 1 \<le> page_num \<and> page_num \<le> int (length mediaboxes)
      then Inr (mediaboxes ! (nat page_num - 1)) else Inl KeyError)"

text \<open>\<open>next(p for p in config["page_dimensions"] if p["page_num"] == page_num)\<close>.\<close>

fun page_info_lookup :: "page_dimension list \<Rightarrow> int \<Rightarrow> py_error + page_dimension" where
  "page_info_lookup [] page_num = Inl StopIteration"
| "page_info_lookup (p # rest) page_num =
     (if pd_page_num p = page_num then Inr p else page_info_lookup rest page_num)"

text \<open>The scan that sets \<open>has_cjk\<close> (a loop with \<open>break\<close>).\<close>

fun scan_has_cjk :: "field_entry list \<Rightarrow> bool" where
  "scan_has_cjk [] = False"
| "scan_has_cjk (e # rest) =
     (case fe_text_content e of
        None \<Rightarrow> scan_has_cjk rest
      | Some tc \<Rightarrow>
         (case tc_content tc of
            None \<Rightarrow> scan_has_cjk rest
          | Some c \<Rightarrow> if has_cjk_characters c then True else scan_has_cjk rest))"

text \<open>
  A \<open>FreeText\<close> annotation as the source constructs it, with the 0-based page it is added
  to. \<open>ft_font_size\<close> is the number \<open>n\<close> of the source's \<open>str(n) + "pt"\<close>.
\<close>

record free_text =
  ft_page_number :: int
  ft_text :: ustring
  ft_rect :: "num \<times> num \<times> num \<times> num"
  ft_font :: string
  ft_font_size :: num
  ft_font_color :: string

text \<open>One \<open>drawString\<close> of the reportlab path, with the font and the colour set before it.\<close>

record draw_string =
  ds_font :: string
  ds_font_size :: num
  ds_fill_color :: string
  ds_x :: num
  ds_y :: num
  ds_text :: ustring

text \<open>
  What is written to the output path: the pages of the input with the free-text annotations
  added, or with one overlay page merged into each page that has text (the 0-based page
  index and the strings drawn on the overlay).
\<close>

datatype output_pdf =
    Annotated "free_text list"
  | Embedded "(int \<times> draw_string list) list"

text \<open>
  The \<open>FreeText(...)\<close> call of the annotation path for an entry with content \<open>c\<close>, added to
  page \<open>page_num - 1\<close>.
\<close>

definition make_free_text :: "int \<Rightarrow> text_content \<Rightarrow> ustring \<Rightarrow> num \<times> num \<times> num \<times> num \<Rightarrow> free_text" where
  "make_free_text page_num tc c transformed_bounds =
     (let font_name = (case tc_font tc of None \<Rightarrow> ''Arial'' | Some f \<Rightarrow> f);
          text_size = (case tc_text_size tc of None \<Rightarrow> 14 | Some n \<Rightarrow> n);
          text_color = (case tc_text_color tc of None \<Rightarrow> ''000000'' | Some col \<Rightarrow> col)
      in \<lparr>ft_page_number = page_num - 1, ft_text = c, ft_rect = transformed_bounds,
          ft_font = font_name, ft_font_size = text_size, ft_font_color = text_color\<rparr>)"

text \<open>The annotation path: the loop over the entries.\<close>

fun annotate_entries ::
    "config \<Rightarrow> (num \<times> num) list \<Rightarrow> field_entry list \<Rightarrow> free_text list \<Rightarrow> py_error + free_text list" where
  "annotate_entries cfg mediaboxes [] overlay_annotations = Inr overlay_annotations"
| "annotate_entries cfg mediaboxes (e # rest) overlay_annotations =
     (let page_num = fe_page_num e in
      case page_info_lookup (page_dimensions cfg) page_num of
        Inl err \<Rightarrow> Inl err
      | Inr page_info \<Rightarrow>
         (case pdf_dims_lookup mediaboxes page_num of
            Inl err \<Rightarrow> Inl err
          | Inr (pdf_width, pdf_height) \<Rightarrow>
             (case convert_image_to_pdf_coords (fe_entry_bounds e)
                     (pd_img_width page_info) (pd_img_height page_info) pdf_width pdf_height of
                Inl err \<Rightarrow> Inl err
              | Inr transformed_bounds \<Rightarrow>
                 (case fe_text_content e of
                    None \<Rightarrow> annotate_entries cfg mediaboxes rest overlay_annotations
                  | Some tc \<Rightarrow>
                     (case tc_content tc of
                        None \<Rightarrow> annotate_entries cfg mediaboxes rest overlay_annotations
                      | Some c \<Rightarrow>
                          if c = [] then annotate_entries cfg mediaboxes rest overlay_annotations
                          else
                            annotate_entries cfg mediaboxes rest
                              (overlay_annotations @
                               [make_free_text page_num tc c transformed_bounds]))))))"

definition annotation_path ::
    "config \<Rightarrow> (num \<times> num) list \<Rightarrow> overlay_message list \<times> (py_error + output_pdf)" where
  "annotation_path cfg mediaboxes =
     (case annotate_entries cfg mediaboxes (field_entries cfg) [] of
        Inl err \<Rightarrow> ([], Inl err)
      | Inr overlay_annotations \<Rightarrow>
          ([Saved_to_output, Overlay_count (length overlay_annotations)],
           Inr (Annotated overlay_annotations)))"

text \<open>
  \<open>apply_text_overlays_with_reportlab\<close>. \<open>entries_by_page\<close> is a dict from page number to
  the entries with non-empty content, in insertion order.
\<close>

fun add_to_page :: "int \<Rightarrow> field_entry \<Rightarrow> (int \<times> field_entry list) list \<Rightarrow> (int \<times> field_entry list) list" where
  "add_to_page page_num e [] = [(page_num, [e])]"
| "add_to_page page_num e ((p, es) # rest) =
     (if p = page_num then (p, es @ [e]) # rest else (p, es) # add_to_page page_num e rest)"

fun group_entries_by_page :: "field_entry list \<Rightarrow> (int \<times> field_entry list) list \<Rightarrow> (int \<times> field_entry list) list" where
  "group_entries_by_page [] entries_by_page = entries_by_page"
| "group_entries_by_page (e # rest) entries_by_page =
     (case fe_text_content e of
        None \<Rightarrow> group_entries_by_page rest entries_by_page
      | Some tc \<Rightarrow>
         (case tc_content tc of
            None \<Rightarrow> group_entries_by_page rest entries_by_page
          | Some c \<Rightarrow>
              if c = [] then group_entries_by_page rest entries_by_page
              else group_entries_by_page rest (add_to_page (fe_page_num e) e entries_by_page)))"

text \<open>
  What the body of the loop over the entries of one page sets and draws for an entry with
  content \<open>c\<close>: the font (the registered font for wide-glyph text, else the requested font
  or Helvetica when \<open>setFont\<close> raises), the colour (black when \<open>HexColor\<close> raises) and the
  string at \<open>(left, bottom)\<close>.
\<close>

definition make_draw_string ::
    "platform \<Rightarrow> string \<Rightarrow> text_content \<Rightarrow> ustring \<Rightarrow> num \<Rightarrow> num \<Rightarrow> draw_string" where
  "make_draw_string env cjk_font_name tc c left bottom =
     (let text_size = (case tc_text_size tc of None \<Rightarrow> 14 | Some n \<Rightarrow> n);
          text_color = (case tc_text_color tc of None \<Rightarrow> ''000000'' | Some col \<Rightarrow> col);
          font =
            (if has_cjk_characters c then cjk_font_name
             else (let requested = (case tc_font tc of None \<Rightarrow> ''Helvetica'' | Some f \<Rightarrow> f)
                   in if set_font_ok env requested then requested else ''Helvetica''));
          color = (if hex_color_ok env text_color then text_color else ''000000'')
      in \<lparr>ds_font = font, ds_font_size = text_size, ds_fill_color = color,
          ds_x = left, ds_y = bottom, ds_text = c\<rparr>)"

text \<open>
  The strings drawn for one page. Every entry in \<open>entries_by_page\<close> has a \<open>text_content\<close>
  with a \<open>content\<close>; the subscripts of the source raise KeyError otherwise.
\<close>

fun draw_entries ::
    "platform \<Rightarrow> string \<Rightarrow> page_dimension \<Rightarrow> num \<times> num \<Rightarrow> field_entry list \<Rightarrow> py_error + draw_string list" where
  "draw_entries env cjk_font_name page_info dims [] = Inr []"
| "draw_entries env cjk_font_name page_info dims (e # rest) =
     (case fe_text_content e of
        None \<Rightarrow> Inl KeyError
      | Some tc \<Rightarrow>
         (case tc_content tc of
            None \<Rightarrow> Inl KeyError
          | Some c \<Rightarrow>
             (case convert_image_to_pdf_coords (fe_entry_bounds e)
                     (pd_img_width page_info) (pd_img_height page_info) (fst dims) (snd dims) of
                Inl err \<Rightarrow> Inl err
              | Inr (left, bottom, right, top') \<Rightarrow>
                 (case draw_entries env cjk_font_name page_info dims rest of
                    Inl err \<Rightarrow> Inl err
                  | Inr ds \<Rightarrow> Inr (make_draw_string env cjk_font_name tc c left bottom # ds)))))"

fun overlay_pages ::
    "platform \<Rightarrow> config \<Rightarrow> (num \<times> num) list \<Rightarrow> string \<Rightarrow> (int \<times> field_entry list) list
       \<Rightarrow> py_error + (int \<times> draw_string list) list" where
  "overlay_pages env cfg mediaboxes cjk_font_name [] = Inr []"
| "overlay_pages env cfg mediaboxes cjk_font_name ((page_num, entries) # rest) =
     (case pdf_dims_lookup mediaboxes page_num of
        Inl err \<Rightarrow> Inl err
      | Inr dims \<Rightarrow>
         (case page_info_lookup (page_dimensions cfg) page_num of
            Inl err \<Rightarrow> Inl err
          | Inr page_info \<Rightarrow>
             (case draw_entries env cjk_font_name page_info dims entries of
                Inl err \<Rightarrow> Inl err
              | Inr ds \<Rightarrow>
                 (case overlay_pages env cfg mediaboxes cjk_font_name rest of
                    Inl err \<Rightarrow> Inl err
                  | Inr ps \<Rightarrow> Inr ((page_num - 1, ds) # ps)))))"

definition apply_text_overlays_with_reportlab ::
    "platform \<Rightarrow> config \<Rightarrow> (num \<times> num) list \<Rightarrow> string \<Rightarrow> overlay_message list \<times> (py_error + output_pdf)" where
  "apply_text_overlays_with_reportlab env cfg mediaboxes cjk_font_name =
     (case overlay_pages env cfg mediaboxes cjk_font_name
             (group_entries_by_page (field_entries cfg) []) of
        Inl err \<Rightarrow> ([], Inl err)
      | Inr ps \<Rightarrow>
          ([Saved_to_output, Overlay_count_embedded (length (concat (map snd ps)))],
           Inr (Embedded ps)))"

text \<open>The block under \<open>if has_cjk:\<close>, which ends the run either way.\<close>

definition embedded_glyph_path ::
    "platform \<Rightarrow> config \<Rightarrow> (num \<times> num) list \<Rightarrow> overlay_message list \<times> (py_error + output_pdf)" where
  "embedded_glyph_path env cfg mediaboxes =
     (case register_cjk_font env of
        (printed, Some cjk_font_name) \<Rightarrow>
          (case apply_text_overlays_with_reportlab env cfg mediaboxes cjk_font_name of
             (printed', res) \<Rightarrow> (printed @ [Using_embedded_font cjk_font_name] @ printed', res))
      | (printed, None) \<Rightarrow>
          (printed @
           [Err_cjk_font_missing, Note_placeholder_squares, Blank_line, Hint_install_font,
            Hint_macos, Hint_windows, Hint_linux, Blank_line, Supported_paths_header] @
           map (\<lambda>(path, name). Supported_path path name) CJK_FONT_PATHS,
           Inl SystemExit))"

text \<open>
  \<open>apply_text_overlays\<close>: what is printed, and either the error that ends the run (nothing
  is written to the output path then: the only writes are the last statements of the two
  paths) or the document written.
\<close>

definition apply_text_overlays ::
    "platform \<Rightarrow> (num \<times> num) list \<Rightarrow> config \<Rightarrow> overlay_message list \<times> (py_error + output_pdf)" where
  "apply_text_overlays env mediaboxes cfg =
     (let has_cjk = scan_has_cjk (field_entries cfg) in
      if has_cjk then embedded_glyph_path env cfg mediaboxes
      else annotation_path cfg mediaboxes)"

section \<open>parse_form_structure.py\<close>

text \<open>
  An annotation of a page, and the field dictionaries its \<open>/Parent\<close> chain leads to, as far
  as the source reads them: the partial name \<open>/T\<close>, the parent, the rectangle \<open>/Rect\<close>
  and the keys of the appearance dictionary \<open>ann["/AP"]["/N"]\<close> (\<open>None\<close> when \<open>/AP\<close> or
  \<open>/N\<close> is missing, where the subscript raises KeyError).
\<close>

datatype annotation =
  Annotation (ann_T: "string option") (ann_Parent: "annotation option")
             (ann_Rect: "bounds option") (ann_AP_N: "string list option")

text \<open>
  An entry of a field's \<open>/_States_\<close> list: a name (a string), or a two-element list
  \<open>[value, label]\<close>, as choice fields may declare. \<open>state_item st i\<close> is the Python \<open>st[i]\<close>:
  on a string it selects one character.
\<close>

datatype pdf_state = State_name string | State_pair string string

fun state_item :: "pdf_state \<Rightarrow> nat \<Rightarrow> py_error + string" where
  "state_item (State_pair a b) i = (if i = 0 then Inr a else if i = 1 then Inr b else Inl IndexError)"
| "state_item (State_name s) i = (if i < length s then Inr [s ! i] else Inl IndexError)"

text \<open>
  A field of \<open>reader.get_fields()\<close>: its type \<open>/FT\<close>, whether \<open>field.get("/Kids")\<close> is truthy,
  and its \<open>/_States_\<close> (\<open>None\<close>: the key is absent).
\<close>

record field =
  fld_FT :: "string option"
  fld_Kids :: bool
  fld_States :: "pdf_state list option"

record page =
  pg_mediabox :: "num \<times> num"
  pg_Annots :: "annotation list"

record reader =
  rd_fields :: "(string \<times> field) list option"
  rd_pages :: "page list"

text \<open>
  An element dict of the published model. Each optional key of the dict is an option
  (\<open>None\<close>: the key is absent); for \<open>bounds\<close>, \<open>None\<close> also stands for a key whose value is
  \<open>None\<close> (an annotation without \<open>/Rect\<close>), which the source treats alike.
\<close>

record option_entry =
  opt_option_value :: string
  opt_bounds :: "bounds option"

record menu_item =
  mi_option_value :: string
  mi_display_text :: string

record element =
  el_element_id :: string
  el_element_type :: string
  el_page_num :: "int option"
  el_bounds :: "bounds option"
  el_on_value :: "pdf_state option"
  el_off_value :: "pdf_state option"
  el_available_options :: "option_entry list option"
  el_menu_items :: "menu_item list option"

datatype parse_warning = Warn_toggle_states string | Warn_no_location string

fun join :: "string \<Rightarrow> string list \<Rightarrow> string" where
  "join sep [] = []"
| "join sep [x] = x"
| "join sep (x # y # rest) = x @ sep @ join sep (y # rest)"

text \<open>The \<open>while\<close> loop of \<open>build_complete_element_id\<close>: the names from the leaf upwards.\<close>

fun name_parts :: "annotation \<Rightarrow> string list" where
  "name_parts (Annotation name parent rect ap_n) =
     (case name of None \<Rightarrow> [] | Some n \<Rightarrow> if n = [] then [] else [n]) @
     (case parent of None \<Rightarrow> [] | Some q \<Rightarrow> name_parts q)"

definition build_complete_element_id :: "annotation \<Rightarrow> string option" where
  "build_complete_element_id ann =
     (let parts = name_parts ann in
      if parts \<noteq> [] then Some (join ''.'' (rev parts)) else None)"

definition new_element :: "string \<Rightarrow> element" where
  "new_element element_id =
     \<lparr>el_element_id = element_id, el_element_type = [], el_page_num = None, el_bounds = None,
      el_on_value = None, el_off_value = None, el_available_options = None, el_menu_items = None\<rparr>"

fun menu_items_of :: "pdf_state list \<Rightarrow> py_error + menu_item list" where
  "menu_items_of [] = Inr []"
| "menu_items_of (st # rest) =
     (case state_item st 0 of
        Inl err \<Rightarrow> Inl err
      | Inr v \<Rightarrow>
         (case state_item st 1 of
            Inl err \<Rightarrow> Inl err
          | Inr d \<Rightarrow>
             (case menu_items_of rest of
                Inl err \<Rightarrow> Inl err
              | Inr items \<Rightarrow> Inr (\<lparr>mi_option_value = v, mi_display_text = d\<rparr> # items))))"

definition build_element_dict :: "field \<Rightarrow> string \<Rightarrow> py_error + (parse_warning list \<times> element)" where
  "build_element_dict fld element_id =
     (let element_dict = new_element element_id;
          field_type = fld_FT fld
      in
      if field_type = Some ''/Tx'' then
        Inr ([], element_dict\<lparr>el_element_type := ''text_input''\<rparr>)
      else if field_type = Some ''/Btn'' then
        (let element_dict = element_dict\<lparr>el_element_type := ''toggle_box''\<rparr>;
             available_states = (case fld_States fld of None \<Rightarrow> [] | Some sts \<Rightarrow> sts)
         in
         if length available_states = 2 then
           (if State_name ''/Off'' \<in> set available_states then
              Inr ([], element_dict
                     \<lparr>el_on_value := Some (if available_states ! 0 \<noteq> State_name ''/Off''
                                           then available_states ! 0 else available_states ! 1),
                      el_off_value := Some (State_name ''/Off'')\<rparr>)
            else
              Inr ([Warn_toggle_states element_id],
                   element_dict\<lparr>el_on_value := Some (available_states ! 0),
                                el_off_value := Some (available_states ! 1)\<rparr>))
         else Inr ([], element_dict))
      else if field_type = Some ''/Ch'' then
        (let available_states = (case fld_States fld of None \<Rightarrow> [] | Some sts \<Rightarrow> sts) in
         case menu_items_of available_states of
           Inl err \<Rightarrow> Inl err
         | Inr items \<Rightarrow>
             Inr ([], element_dict\<lparr>el_element_type := ''dropdown'', el_menu_items := Some items\<rparr>))
      else
        Inr ([], element_dict
               \<lparr>el_element_type :=
                  ''unknown ('' @ (case field_type of None \<Rightarrow> ''None'' | Some t \<Rightarrow> t) @ '')''\<rparr>))"

text \<open>
  The first loop of \<open>parse_form_elements\<close>, over \<open>fields.items()\<close>. \<open>elements_by_id\<close> is a
  dict in insertion order (an association list updated in place); \<open>potential_option_groups\<close>
  is a set.
\<close>

fun collect_fields ::
    "(string \<times> field) list \<Rightarrow> (string \<times> element) list \<Rightarrow> string set \<Rightarrow> parse_warning list
       \<Rightarrow> py_error + ((string \<times> element) list \<times> string set \<times> parse_warning list)" where
  "collect_fields [] elements_by_id potential_option_groups printed =
     Inr (elements_by_id, potential_option_groups, printed)"
| "collect_fields ((element_id, fld) # rest) elements_by_id potential_option_groups printed =
     (if fld_Kids fld then
        (if fld_FT fld = Some ''/Btn''
         then collect_fields rest elements_by_id (insert element_id potential_option_groups) printed
         else collect_fields rest elements_by_id potential_option_groups printed)
      else
        (case build_element_dict fld element_id of
           Inl err \<Rightarrow> Inl err
         | Inr (warnings, element_dict) \<Rightarrow>
             collect_fields rest (AList.update element_id element_dict elements_by_id)
               potential_option_groups (printed @ warnings)))"

text \<open>
  The second loop, over the annotations of one page: the state is
  \<open>(elements_by_id, option_groups_by_id)\<close>.
\<close>

definition new_option_group :: "string \<Rightarrow> int \<Rightarrow> element" where
  "new_option_group element_id page_num =
     (new_element element_id)
       \<lparr>el_element_type := ''option_group'', el_page_num := Some page_num,
        el_available_options := Some []\<rparr>"

fun place_annotations ::
    "string set \<Rightarrow> int \<Rightarrow> annotation list
       \<Rightarrow> (string \<times> element) list \<times> (string \<times> element) list
       \<Rightarrow> (string \<times> element) list \<times> (string \<times> element) list" where
  "place_annotations potential_option_groups page_num [] st = st"
| "place_annotations potential_option_groups page_num (ann # rest) (elements_by_id, option_groups_by_id) =
     (case build_complete_element_id ann of
        None \<Rightarrow>
          place_annotations potential_option_groups page_num rest (elements_by_id, option_groups_by_id)
      | Some element_id \<Rightarrow>
          if map_of elements_by_id element_id \<noteq> None then
            place_annotations potential_option_groups page_num rest
              (AList.map_entry element_id
                 (\<lambda>e. e\<lparr>el_page_num := Some page_num, el_bounds := ann_Rect ann\<rparr>) elements_by_id,
               option_groups_by_id)
          else if element_id \<in> potential_option_groups then
            (case ann_AP_N ann of
               None \<Rightarrow>
                 place_annotations potential_option_groups page_num rest (elements_by_id, option_groups_by_id)
             | Some keys \<Rightarrow>
                (let active_values = filter (\<lambda>v. v \<noteq> ''/Off'') keys in
                 if length active_values = 1 then
                   (let bounds = ann_Rect ann;
                        groups =
                          (if map_of option_groups_by_id element_id = None
                           then option_groups_by_id @ [(element_id, new_option_group element_id page_num)]
                           else option_groups_by_id)
                    in place_annotations potential_option_groups page_num rest
                         (elements_by_id,
                          AList.map_entry element_id
                            (\<lambda>g. g\<lparr>el_available_options :=
                                      map_option
                                        (\<lambda>opts. opts @ [\<lparr>opt_option_value = active_values ! 0,
                                                          opt_bounds = bounds\<rparr>])
                                        (el_available_options g)\<rparr>)
                            groups))
                 else
                   place_annotations potential_option_groups page_num rest
                     (elements_by_id, option_groups_by_id)))
          else
            place_annotations potential_option_groups page_num rest (elements_by_id, option_groups_by_id))"

fun place_pages ::
    "string set \<Rightarrow> int \<Rightarrow> page list
       \<Rightarrow> (string \<times> element) list \<times> (string \<times> element) list
       \<Rightarrow> (string \<times> element) list \<times> (string \<times> element) list" where
  "place_pages potential_option_groups page_idx [] st = st"
| "place_pages potential_option_groups page_idx (pg # rest) st =
     place_pages potential_option_groups (page_idx + 1) rest
       (place_annotations potential_option_groups (page_idx + 1) (pg_Annots pg) st)"

text \<open>The elements with a page, and the warnings for the others.\<close>

fun locate_elements :: "element list \<Rightarrow> element list \<times> parse_warning list" where
  "locate_elements [] = ([], [])"
| "locate_elements (e # rest) =
     (case locate_elements rest of (located, printed) \<Rightarrow>
        if el_page_num e \<noteq> None then (e # located, printed)
        else (located, Warn_no_location (el_element_id e) # printed))"

text \<open>
  The key of the sort, \<open>[page_num, [-bounds[1], bounds[0]]]\<close>: Python compares the lists
  lexicographically. The first component is \<open>elem.get("page_num")\<close>.
\<close>

type_synonym sort_key_t = "int option \<times> num \<times> num"

definition bounds_or_default :: "bounds option \<Rightarrow> bounds" where
  "bounds_or_default r = (case r of None \<Rightarrow> (0, 0, 0, 0) | Some b \<Rightarrow> b)"

definition sort_key_fn :: "element \<Rightarrow> py_error + sort_key_t" where
  "sort_key_fn elem =
     (case el_available_options elem of
        Some opts \<Rightarrow>
          (case opts of
             [] \<Rightarrow> Inl IndexError
           | first_option # _ \<Rightarrow>
               (let bounds = bounds_or_default (opt_bounds first_option)
                in Inr (el_page_num elem, - b1 bounds, b0 bounds)))
      | None \<Rightarrow>
          (let bounds = bounds_or_default (el_bounds elem)
           in Inr (el_page_num elem, - b1 bounds, b0 bounds)))"

text \<open>
  \<open>list.sort(key=sort_key)\<close> computes the key of every element first (an exception of the
  key function ends the sort), then sorts stably by the keys.
\<close>

fun with_keys :: "element list \<Rightarrow> py_error + (sort_key_t \<times> element) list" where
  "with_keys [] = Inr []"
| "with_keys (e # rest) =
     (case sort_key_fn e of
        Inl err \<Rightarrow> Inl err
      | Inr k \<Rightarrow>
         (case with_keys rest of
            Inl err \<Rightarrow> Inl err
          | Inr kes \<Rightarrow> Inr ((k, e) # kes)))"

definition sort_elements :: "element list \<Rightarrow> py_error + element list" where
  "sort_elements elems =
     (case with_keys elems of
        Inl err \<Rightarrow> Inl err
      | Inr kes \<Rightarrow> Inr (map snd (sort_key fst kes)))"

definition parse_form_elements :: "reader \<Rightarrow> py_error + (parse_warning list \<times> element list)" where
  "parse_form_elements rd =
     (case rd_fields rd of
        None \<Rightarrow> Inl AttributeError
      | Some fields' \<Rightarrow>
         (case collect_fields fields' [] {} [] of
            Inl err \<Rightarrow> Inl err
          | Inr (elements_by_id, potential_option_groups, printed) \<Rightarrow>
             (case place_pages potential_option_groups 0 (rd_pages rd) (elements_by_id, []) of
                (elements_by_id', option_groups_by_id) \<Rightarrow>
                  (case locate_elements (map snd elements_by_id') of
                     (elements_with_location, printed') \<Rightarrow>
                       (case sort_elements (elements_with_location @ map snd option_groups_by_id) of
                          Inl err \<Rightarrow> Inl err
                        | Inr sorted_elements \<Rightarrow> Inr (printed @ printed', sorted_elements))))))"

section \<open>populate_interactive_form.py\<close>

text \<open>
  A fill instruction of \<open>form_data.json\<close>: \<open>element_id\<close> and \<open>page_num\<close>, and the optional
  \<open>fill_value\<close> (\<open>None\<close>: the key is absent), a string.
\<close>

record fill_instruction =
  fi_element_id :: string
  fi_page_num :: int
  fi_fill_value :: "string option"

text \<open>The diagnostics of the form filler, one constructor for each template.\<close>

datatype fill_message =
    Err_invalid_element_id string
  | Err_wrong_page string int int
  | Err_toggle_value string string pdf_state pdf_state
  | Err_option_group_value string string "string list"
  | Err_dropdown_value string string "string list"

text \<open>
  \<open>validate_element_value\<close> returns the diagnostic or \<open>None\<close>; a subscript of a key the
  element does not carry raises KeyError.
\<close>

definition validate_element_value :: "element \<Rightarrow> string \<Rightarrow> py_error + fill_message option" where
  "validate_element_value element_info fill_value =
     (let element_type = el_element_type element_info;
          element_id = el_element_id element_info
      in
      if element_type = ''toggle_box'' then
        (case el_on_value element_info of
           None \<Rightarrow> Inl KeyError
         | Some on_val \<Rightarrow>
            (case el_off_value element_info of
               None \<Rightarrow> Inl KeyError
             | Some off_val \<Rightarrow>
                 if State_name fill_value \<noteq> on_val \<and> State_name fill_value \<noteq> off_val
                 then Inr (Some (Err_toggle_value element_id fill_value on_val off_val))
                 else Inr None))
      else if element_type = ''option_group'' then
        (case el_available_options element_info of
           None \<Rightarrow> Inl KeyError
         | Some opts \<Rightarrow>
            (let valid_values = map opt_option_value opts in
             if fill_value \<notin> set valid_values
             then Inr (Some (Err_option_group_value element_id fill_value valid_values))
             else Inr None))
      else if element_type = ''dropdown'' then
        (case el_menu_items element_info of
           None \<Rightarrow> Inl KeyError
         | Some items \<Rightarrow>
            (let menu_values = map mi_option_value items in
             if fill_value \<notin> set menu_values
             then Inr (Some (Err_dropdown_value element_id fill_value menu_values))
             else Inr None))
      else Inr None)"

text \<open>
  \<open>data_by_page\<close>: a dict from page number to a dict from element id to fill value, both
  in insertion order; a later instruction for the same id replaces the value.
\<close>

fun group_by_page ::
    "fill_instruction list \<Rightarrow> (int \<times> (string \<times> string) list) list \<Rightarrow> (int \<times> (string \<times> string) list) list" where
  "group_by_page [] data_by_page = data_by_page"
| "group_by_page (entry # rest) data_by_page =
     (case fi_fill_value entry of
        None \<Rightarrow> group_by_page rest data_by_page
      | Some v \<Rightarrow>
         (let element_id = fi_element_id entry;
              page_num = fi_page_num entry;
              data_by_page' =
                (if map_of data_by_page page_num = None then data_by_page @ [(page_num, [])]
                 else data_by_page)
          in group_by_page rest
               (AList.map_entry page_num (AList.update element_id v) data_by_page')))"

text \<open>\<open>{e["element_id"]: e for e in elements}\<close>.\<close>

definition index_by_id :: "element list \<Rightarrow> (string \<times> element) list" where
  "index_by_id elements = foldl (\<lambda>d e. AList.update (el_element_id e) e d) [] elements"

text \<open>
  The checking loop: the state is \<open>has_errors\<close> and the lines printed so far. An
  exception ends the loop at once (the lines printed before it stay printed).
\<close>

fun check_instructions ::
    "(string \<times> element) list \<Rightarrow> fill_instruction list \<Rightarrow> bool \<Rightarrow> fill_message list
       \<Rightarrow> fill_message list \<times> (py_error + bool)" where
  "check_instructions elements_by_id [] has_errors printed = (printed, Inr has_errors)"
| "check_instructions elements_by_id (entry # rest) has_errors printed =
     (case map_of elements_by_id (fi_element_id entry) of
        None \<Rightarrow>
          check_instructions elements_by_id rest True
            (printed @ [Err_invalid_element_id (fi_element_id entry)])
      | Some existing_element \<Rightarrow>
         (case el_page_num existing_element of
            None \<Rightarrow> (printed, Inl KeyError)
          | Some element_page \<Rightarrow>
              if fi_page_num entry \<noteq> element_page then
                check_instructions elements_by_id rest True
                  (printed @ [Err_wrong_page (fi_element_id entry) (fi_page_num entry) element_page])
              else
                (case fi_fill_value entry of
                   None \<Rightarrow> check_instructions elements_by_id rest has_errors printed
                 | Some v \<Rightarrow>
                    (case validate_element_value existing_element v of
                       Inl err \<Rightarrow> (printed, Inl err)
                     | Inr None \<Rightarrow> check_instructions elements_by_id rest has_errors printed
                     | Inr (Some err) \<Rightarrow>
                         check_instructions elements_by_id rest True (printed @ [err])))))"

text \<open>
  The writes: one \<open>update_page_form_field_values\<close> for each page of \<open>data_by_page\<close>, on
  \<open>writer.pages[page_num - 1]\<close> (a Python subscript: a negative index counts from the end,
  an index out of range raises IndexError). The result lists the 0-based page index of
  each call with the values it sets.
\<close>

definition py_index :: "nat \<Rightarrow> int \<Rightarrow> py_error + nat" where
  "py_index n i =
     (if 0 \<le> i \<and> i < int n then Inr (nat i)
      else if - int n \<le> i \<and> i < 0 then Inr (nat (int n + i))
      else Inl IndexError)"

fun update_pages ::
    "nat \<Rightarrow> (int \<times> (string \<times> string) list) list \<Rightarrow> py_error + (nat \<times> (string \<times> string) list) list" where
  "update_pages n [] = Inr []"
| "update_pages n ((page_num, field_values) # rest) =
     (case py_index n (page_num - 1) of
        Inl err \<Rightarrow> Inl err
      | Inr i \<Rightarrow>
         (case update_pages n rest of
            Inl err \<Rightarrow> Inl err
          | Inr ups \<Rightarrow> Inr ((i, field_values) # ups)))"

text \<open>
  The document written to the output path: the field values set on each page, and the
  \<open>NeedAppearances\<close> flag.
\<close>

record filled_pdf =
  fp_updates :: "(nat \<times> (string \<times> string) list) list"
  fp_need_appearances :: bool

text \<open>
  \<open>populate_form_fields\<close>: the diagnostics printed by the checking loop, and either the
  error that ends the run (the writer is created only after the \<open>sys.exit(1)\<close>, and the
  output file is opened only by the last statement) or the document written. The warnings
  of \<open>parse_form_elements\<close> are printed before the diagnostics and are not repeated here.
\<close>

definition populate_form_fields ::
    "reader \<Rightarrow> fill_instruction list \<Rightarrow> fill_message list \<times> (py_error + filled_pdf)" where
  "populate_form_fields rd form_data =
     (let data_by_page = group_by_page form_data [] in
      case parse_form_elements rd of
        Inl err \<Rightarrow> ([], Inl err)
      | Inr (warnings, elements) \<Rightarrow>
         (case check_instructions (index_by_id elements) form_data False [] of
            (printed, Inl err) \<Rightarrow> (printed, Inl err)
          | (printed, Inr has_errors) \<Rightarrow>
              if has_errors then (printed, Inl SystemExit)
              else
                (case update_pages (length (rd_pages rd)) data_by_page of
                   Inl err \<Rightarrow> (printed, Inl err)
                 | Inr ups \<Rightarrow>
                     (printed, Inr \<lparr>fp_updates = ups, fp_need_appearances = True\<rparr>))))"

section \<open>The specification's notions and example inputs\<close>

text \<open>
  The overlap formula in the words of the specification, for boxes stored as
  \<open>[left, top, right, bottom]\<close>: not (\<open>a.right <= b.left\<close> or \<open>a.left >= b.right\<close> or
  \<open>a.top <= b.bottom\<close> or \<open>a.bottom >= b.top\<close>).
\<close>

definition spec_overlap :: "bounds \<Rightarrow> bounds \<Rightarrow> bool" where
  "spec_overlap a b =
     (\<not> (b2 a \<le> b0 b \<or> b0 a \<ge> b2 b \<or> b1 a \<le> b3 b \<or> b3 a \<ge> b1 b))"

text \<open>The pairs \<open>(xs[i], xs[j])\<close> with \<open>i < j\<close>, in the order the two loops visit them.\<close>

fun later_pairs :: "'a list \<Rightarrow> ('a \<times> 'a) list" where
  "later_pairs [] = []"
| "later_pairs (x # xs) = map (Pair x) xs @ later_pairs xs"

fun is_overlap_message :: "message \<Rightarrow> bool" where
  "is_overlap_message (Fail_same_entry_overlap d x y) = True"
| "is_overlap_message (Fail_overlap d t x d' t' y) = True"
| "is_overlap_message m = False"

text \<open>A field on page \<open>p\<close> with the given label box and entry box, and no text.\<close>

definition two_box_entry :: "int \<Rightarrow> bounds \<Rightarrow> bounds \<Rightarrow> field_entry" where
  "two_box_entry p label_box entry_box =
     \<lparr>fe_description = ''Name'', fe_page_num = p, fe_label_bounds = label_box,
      fe_entry_bounds = entry_box, fe_text_content = None\<rparr>"

text \<open>Example layouts and an example platform.\<close>

definition empty_text_content :: text_content where
  "empty_text_content =
     \<lparr>tc_content = None, tc_font = None, tc_text_size = None, tc_text_color = None\<rparr>"


definition hello_entry :: field_entry where
  "hello_entry =
     \<lparr>fe_description = ''Name'', fe_page_num = 1, fe_label_bounds = (10, 10, 50, 30),
      fe_entry_bounds = (60, 10, 150, 30),
      fe_text_content = Some (empty_text_content\<lparr>tc_content := Some [72, 105]\<rparr>)\<rparr>"

definition nihao_entry :: field_entry where
  "nihao_entry =
     \<lparr>fe_description = ''Name'', fe_page_num = 1, fe_label_bounds = (10, 10, 50, 30),
      fe_entry_bounds = (60, 10, 150, 30),
      fe_text_content = Some (empty_text_content\<lparr>tc_content := Some [0x4E2D, 0x6587]\<rparr>)\<rparr>"

definition one_page_config :: "field_entry list \<Rightarrow> config" where
  "one_page_config es =
     \<lparr>field_entries = es,
      page_dimensions = [\<lparr>pd_page_num = 1, pd_img_width = 200, pd_img_height = 100\<rparr>]\<rparr>"

definition linux_noto :: platform where
  "linux_noto =
     \<lparr>path_exists = (\<lambda>p. p = ''/usr/share/fonts/opentype/noto/NotoSansCJK-Regular.ttc''),
      register_ok = (\<lambda>name path. True),
      set_font_ok = (\<lambda>name. name = ''Helvetica''),
      hex_color_ok = (\<lambda>c. length c = 6)\<rparr>"



text \<open>Example elements of a published model.\<close>

definition dropdown_ab :: element where
  "dropdown_ab =
     (new_element ''choice'')
       \<lparr>el_element_type := ''dropdown'', el_page_num := Some 1,
        el_menu_items := Some [\<lparr>mi_option_value = ''a'', mi_display_text = ''A''\<rparr>,
                               \<lparr>mi_option_value = ''b'', mi_display_text = ''B''\<rparr>]\<rparr>"

definition toggle_yes :: element where
  "toggle_yes =
     (new_element ''agree'')
       \<lparr>el_element_type := ''toggle_box'', el_page_num := Some 1,
        el_on_value := Some (State_name ''/Yes''), el_off_value := Some (State_name ''/Off'')\<rparr>"

definition group_rb :: element where
  "group_rb =
     (new_element ''colour'')
       \<lparr>el_element_type := ''option_group'', el_page_num := Some 1,
        el_available_options := Some [\<lparr>opt_option_value = ''/Red'', opt_bounds = None\<rparr>,
                                      \<lparr>opt_option_value = ''/Blue'', opt_bounds = None\<rparr>]\<rparr>"

definition text_name :: element where
  "text_name = (new_element ''name'')\<lparr>el_element_type := ''text_input'', el_page_num := Some 1\<rparr>"

text \<open>
  Wide glyphs in the words of the specification: a code point in U+3000--303F, U+3040--309F,
  U+30A0--30FF, U+3400--4DBF, U+4E00--9FFF, U+AC00--D7AF or U+FF00--FFEF; a layout needs
  wide glyphs when the \<open>content\<close> of some field entry contains one.
\<close>

definition wide_glyph :: "codepoint \<Rightarrow> bool" where
  "wide_glyph code =
     ((0x3000 \<le> code \<and> code \<le> 0x303F) \<or> (0x3040 \<le> code \<and> code \<le> 0x309F) \<or>
      (0x30A0 \<le> code \<and> code \<le> 0x30FF) \<or> (0x3400 \<le> code \<and> code \<le> 0x4DBF) \<or>
      (0x4E00 \<le> code \<and> code \<le> 0x9FFF) \<or> (0xAC00 \<le> code \<and> code \<le> 0xD7AF) \<or>
      (0xFF00 \<le> code \<and> code \<le> 0xFFEF))"

definition needs_wide_glyphs :: "config \<Rightarrow> bool" where
  "needs_wide_glyphs cfg =
     (\<exists>e\<in>set (field_entries cfg).
        case fe_text_content e of
          None \<Rightarrow> False
        | Some tc \<Rightarrow> (case tc_content tc of None \<Rightarrow> False | Some c \<Rightarrow> \<exists>code\<in>set c. wide_glyph code))"

text \<open>A two-page layout with ASCII text on page 1 and wide-glyph text on page 2.\<close>

definition mixed_config :: config where
  "mixed_config =
     \<lparr>field_entries = [hello_entry, nihao_entry\<lparr>fe_page_num := 2\<rparr>],
      page_dimensions = [\<lparr>pd_page_num = 1, pd_img_width = 200, pd_img_height = 100\<rparr>,
                         \<lparr>pd_page_num = 2, pd_img_width = 200, pd_img_height = 100\<rparr>]\<rparr>"

text \<open>A platform without any of the fonts, and one whose only font file does not register.\<close>

definition no_fonts :: platform where
  "no_fonts =
     \<lparr>path_exists = (\<lambda>p. False), register_ok = (\<lambda>name path. True),
      set_font_ok = (\<lambda>name. name = ''Helvetica''), hex_color_ok = (\<lambda>c. length c = 6)\<rparr>"

definition broken_font :: platform where
  "broken_font =
     \<lparr>path_exists = (\<lambda>p. p = ''C:/Windows/Fonts/simsun.ttc''), register_ok = (\<lambda>name path. False),
      set_font_ok = (\<lambda>name. name = ''Helvetica''), hex_color_ok = (\<lambda>c. length c = 6)\<rparr>"

text \<open>
  An example document: a text field and a check box, each with one annotation on page 1.
\<close>

definition simple_form :: reader where
  "simple_form =
     \<lparr>rd_fields = Some
        [(''name'', \<lparr>fld_FT = Some ''/Tx'', fld_Kids = False, fld_States = None\<rparr>),
         (''agree'', \<lparr>fld_FT = Some ''/Btn'', fld_Kids = False,
                      fld_States = Some [State_name ''/Yes'', State_name ''/Off'']\<rparr>)],
      rd_pages =
        [\<lparr>pg_mediabox = (612, 792),
          pg_Annots = [Annotation (Some ''agree'') None (Some (50, 650, 70, 670)) (Some [''/Yes'', ''/Off'']),
                       Annotation (Some ''name'') None (Some (50, 700, 200, 720)) None]\<rparr>]\<rparr>"

definition simple_form_elements :: "element list" where
  "simple_form_elements =
     [(new_element ''name'')\<lparr>el_element_type := ''text_input'', el_page_num := Some 1,
                              el_bounds := Some (50, 700, 200, 720)\<rparr>,
      (new_element ''agree'')\<lparr>el_element_type := ''toggle_box'', el_page_num := Some 1,
                               el_bounds := Some (50, 650, 70, 670),
                               el_on_value := Some (State_name ''/Yes''),
                               el_off_value := Some (State_name ''/Off'')\<rparr>]"

definition good_batch :: "fill_instruction list" where
  "good_batch =
     [\<lparr>fi_element_id = ''name'', fi_page_num = 1, fi_fill_value = Some ''Alice''\<rparr>,
      \<lparr>fi_element_id = ''agree'', fi_page_num = 1, fi_fill_value = Some ''/Yes''\<rparr>]"

definition wrong_page_batch :: "fill_instruction list" where
  "wrong_page_batch =
     [\<lparr>fi_element_id = ''name'', fi_page_num = 1, fi_fill_value = Some ''Alice''\<rparr>,
      \<lparr>fi_element_id = ''agree'', fi_page_num = 2, fi_fill_value = Some ''/Yes''\<rparr>]"

text \<open>
  An instruction passes the checks against the indexed model: its id is known, its page is
  the recorded page of that element, and its fill value, if any, is accepted.
\<close>

definition instruction_passes :: "(string \<times> element) list \<Rightarrow> fill_instruction \<Rightarrow> bool" where
  "instruction_passes elements_by_id instr =
     (case map_of elements_by_id (fi_element_id instr) of
        None \<Rightarrow> False
      | Some el \<Rightarrow>
          el_page_num el = Some (fi_page_num instr) \<and>
          (case fi_fill_value instr of
             None \<Rightarrow> True
           | Some v \<Rightarrow> validate_element_value el v = Inr None))"

text \<open>
  The position that orders an element: the rectangle of its first recorded option for an
  option group, its own rectangle otherwise, \<open>[0, 0, 0, 0]\<close> when there is none; and its page.
\<close>

definition position :: "element \<Rightarrow> bounds" where
  "position e =
     (case el_available_options e of
        Some (first_option # _) \<Rightarrow> bounds_or_default (opt_bounds first_option)
      | _ \<Rightarrow> bounds_or_default (el_bounds e))"

definition page_of :: "element \<Rightarrow> int" where
  "page_of e = (case el_page_num e of Some p \<Rightarrow> p | None \<Rightarrow> 0)"

text \<open>
  The order of the specification on \<open>(page_num, -y, x)\<close>, with \<open>y = bounds[1]\<close> and
  \<open>x = bounds[0]\<close>: page ascending, then \<open>y\<close> descending, then \<open>x\<close> ascending;
  \<open>key_less\<close> is the strict order, \<open>key_le\<close> admits equal keys.
\<close>

definition key_less :: "element \<Rightarrow> element \<Rightarrow> bool" where
  "key_less a b =
     (page_of a < page_of b \<or>
      (page_of a = page_of b \<and>
        (b1 (position a) > b1 (position b) \<or>
         (b1 (position a) = b1 (position b) \<and> b0 (position a) < b0 (position b)))))"

definition key_le :: "element \<Rightarrow> element \<Rightarrow> bool" where
  "key_le a b =
     (page_of a < page_of b \<or>
      (page_of a = page_of b \<and>
        (b1 (position a) > b1 (position b) \<or>
         (b1 (position a) = b1 (position b) \<and> b0 (position a) \<le> b0 (position b)))))"

text \<open>Two text fields whose annotations have the same rectangle on page 1.\<close>

definition stacked_form :: reader where
  "stacked_form =
     \<lparr>rd_fields = Some
        [(''first'', \<lparr>fld_FT = Some ''/Tx'', fld_Kids = False, fld_States = None\<rparr>),
         (''second'', \<lparr>fld_FT = Some ''/Tx'', fld_Kids = False, fld_States = None\<rparr>)],
      rd_pages =
        [\<lparr>pg_mediabox = (612, 792),
          pg_Annots = [Annotation (Some ''first'') None (Some (0, 0, 0, 0)) None,
                       Annotation (Some ''second'') None (Some (0, 0, 0, 0)) None]\<rparr>]\<rparr>"

definition stacked_elements :: "element list" where
  "stacked_elements =
     [(new_element ''first'')\<lparr>el_element_type := ''text_input'', el_page_num := Some 1,
                               el_bounds := Some (0, 0, 0, 0)\<rparr>,
      (new_element ''second'')\<lparr>el_element_type := ''text_input'', el_page_num := Some 1,
                                el_bounds := Some (0, 0, 0, 0)\<rparr>]"

text \<open>
  A radio group of two options on page 2 and a text field on page 1 and one on page 2.
\<close>

definition radio_form :: reader where
  "radio_form =
     \<lparr>rd_fields = Some
        [(''colour'', \<lparr>fld_FT = Some ''/Btn'', fld_Kids = True, fld_States = None\<rparr>),
         (''note'', \<lparr>fld_FT = Some ''/Tx'', fld_Kids = False, fld_States = None\<rparr>),
         (''name'', \<lparr>fld_FT = Some ''/Tx'', fld_Kids = False, fld_States = None\<rparr>)],
      rd_pages =
        [\<lparr>pg_mediabox = (612, 792),
          pg_Annots = [Annotation (Some ''name'') None (Some (50, 700, 200, 720)) None]\<rparr>,
         \<lparr>pg_mediabox = (612, 792),
          pg_Annots =
            [Annotation (Some ''note'') None (Some (50, 500, 200, 520)) None,
             Annotation None (Some (Annotation (Some ''colour'') None None None))
               (Some (50, 600, 60, 610)) (Some [''/Red'', ''/Off'']),
             Annotation None (Some (Annotation (Some ''colour'') None None None))
               (Some (80, 600, 90, 610)) (Some [''/Off'', ''/Blue''])]\<rparr>]\<rparr>"

definition radio_elements :: "element list" where
  "radio_elements =
     [(new_element ''name'')\<lparr>el_element_type := ''text_input'', el_page_num := Some 1,
                              el_bounds := Some (50, 700, 200, 720)\<rparr>,
      (new_element ''colour'')\<lparr>el_element_type := ''option_group'', el_page_num := Some 2,
         el_available_options :=
           Some [\<lparr>opt_option_value = ''/Red'', opt_bounds = Some (50, 600, 60, 610)\<rparr>,
                 \<lparr>opt_option_value = ''/Blue'', opt_bounds = Some (80, 600, 90, 610)\<rparr>]\<rparr>,
      (new_element ''note'')\<lparr>el_element_type := ''text_input'', el_page_num := Some 2,
                              el_bounds := Some (50, 500, 200, 520)\<rparr>]"

definition groups_located :: "(string \<times> element) list \<Rightarrow> bool" where
  "groups_located ogs = (\<forall>p\<in>set ogs. el_page_num (snd p) \<noteq> None)"

text \<open>
  A document with a push button (a button field without \<open>/_States_\<close>) and a check box that
  declares three states, each with one annotation on page 1.
\<close>

definition button_form :: reader where
  "button_form =
     \<lparr>rd_fields = Some
        [(''submit'', \<lparr>fld_FT = Some ''/Btn'', fld_Kids = False, fld_States = None\<rparr>),
         (''tri'', \<lparr>fld_FT = Some ''/Btn'', fld_Kids = False,
                    fld_States = Some [State_name ''/Yes'', State_name ''/Maybe'', State_name ''/Off'']\<rparr>)],
      rd_pages =
        [\<lparr>pg_mediabox = (612, 792),
          pg_Annots = [Annotation (Some ''submit'') None (Some (50, 100, 120, 120)) None,
                       Annotation (Some ''tri'') None (Some (50, 60, 70, 80)) None]\<rparr>]\<rparr>"

definition button_elements :: "element list" where
  "button_elements =
     [(new_element ''submit'')\<lparr>el_element_type := ''toggle_box'', el_page_num := Some 1,
                                el_bounds := Some (50, 100, 120, 120)\<rparr>,
      (new_element ''tri'')\<lparr>el_element_type := ''toggle_box'', el_page_num := Some 1,
                             el_bounds := Some (50, 60, 70, 80)\<rparr>]"

text \<open>
  The coordinate formulas in the words of the specification, in exact arithmetic, in the
  order \<open>(left, bottom_pdf, right, top_pdf)\<close>.
\<close>

definition spec_map :: "bounds \<Rightarrow> num \<Rightarrow> num \<Rightarrow> num \<Rightarrow> num \<Rightarrow> num \<times> num \<times> num \<times> num" where
  "spec_map bbox image_w image_h page_w page_h =
     (b0 bbox * page_w / image_w,
      page_h - b3 bbox * page_h / image_h,
      b2 bbox * page_w / image_w,
      page_h - b1 bbox * page_h / image_h)"




text \<open>
  The order of the specification on \<open>(page_num, -top_y, left_x)\<close>, where \<open>top_y\<close> is the upper
  edge of the rectangle of the element and \<open>left_x\<close> its first number: \<open>claimed_key_less\<close> is
  the strict order, \<open>claimed_key_le\<close> admits equal keys.
\<close>

definition top_y :: "element \<Rightarrow> rat" where
  "top_y e = max (b1 (position e)) (b3 (position e))"

definition claimed_key_less :: "element \<Rightarrow> element \<Rightarrow> bool" where
  "claimed_key_less a b =
     (page_of a < page_of b \<or>
      (page_of a = page_of b \<and>
        (top_y a > top_y b \<or>
         (top_y a = top_y b \<and> b0 (position a) < b0 (position b)))))"

definition claimed_key_le :: "element \<Rightarrow> element \<Rightarrow> bool" where
  "claimed_key_le a b =
     (page_of a < page_of b \<or>
      (page_of a = page_of b \<and>
        (top_y a > top_y b \<or>
         (top_y a = top_y b \<and> b0 (position a) \<le> b0 (position b)))))"

text \<open>
  Two text fields on page 1: a tall one from \<open>y = 100\<close> to \<open>y = 200\<close> and a short one from
  \<open>y = 150\<close> to \<open>y = 160\<close>.
\<close>

definition tall_short_form :: reader where
  "tall_short_form =
     \<lparr>rd_fields = Some
        [(''tall'', \<lparr>fld_FT = Some ''/Tx'', fld_Kids = False, fld_States = None\<rparr>),
         (''short'', \<lparr>fld_FT = Some ''/Tx'', fld_Kids = False, fld_States = None\<rparr>)],
      rd_pages =
        [\<lparr>pg_mediabox = (612, 792),
          pg_Annots = [Annotation (Some ''tall'') None (Some (50, 100, 200, 200)) None,
                       Annotation (Some ''short'') None (Some (50, 150, 200, 160)) None]\<rparr>]\<rparr>"

definition short_tall_elements :: "element list" where
  "short_tall_elements =
     [(new_element ''short'')\<lparr>el_element_type := ''text_input'', el_page_num := Some 1,
                               el_bounds := Some (50, 150, 200, 160)\<rparr>,
      (new_element ''tall'')\<lparr>el_element_type := ''text_input'', el_page_num := Some 1,
                              el_bounds := Some (50, 100, 200, 200)\<rparr>]"

section \<open>Properties\<close>

subsection \<open>Rounding to doubles\<close>

lemma pow2_pos: "0 < pow2 k"
  by (simp add: pow2_def)

lemma pow2_add: "pow2 (j + k) = pow2 j * pow2 k"
proof -
  have "pow2 k = 2 powi k" for k
    by (simp add: pow2_def power_int_def field_simps)
  then show ?thesis by (simp add: power_int_add)
qed

lemma bit_length_bounds:
  "0 < n \<Longrightarrow> 2 ^ (bit_length n - 1) \<le> n \<and> n < 2 ^ bit_length n"
proof (induction n rule: bit_length.induct)
  case (1 n)
  show ?case
  proof (cases "n = 1")
    case True
    then show ?thesis by (simp add: bit_length.simps)
  next
    case False
    with "1.prems" have m: "0 < n div 2" by simp
    from "1.IH" m "1.prems" have ih: "2 ^ (bit_length (n div 2) - 1) \<le> n div 2" "n div 2 < 2 ^ bit_length (n div 2)"
      by simp_all
    have pos: "0 < bit_length (n div 2)" using m by (simp add: bit_length.simps[of "n div 2"])
    have bl: "bit_length n = Suc (bit_length (n div 2))"
      using "1.prems" by (simp add: bit_length.simps[of n])
    have "(2::int) ^ bit_length (n div 2) = 2 * 2 ^ (bit_length (n div 2) - 1)"
      using pos by (cases "bit_length (n div 2)") simp_all
    with ih(1) have lo: "2 ^ bit_length (n div 2) \<le> n" by linarith
    from ih(2) have "n < 2 * 2 ^ bit_length (n div 2)" by linarith
    with lo show ?thesis by (simp add: bl)
  qed
qed


lemma pow2_nat: "pow2 (int n) = 2 ^ n"
  by (simp add: pow2_def)

lemma pow2_neg_nat: "pow2 (- int n) = 1 / 2 ^ n"
  by (cases "n = 0") (simp_all add: pow2_def)

lemma binary_exponent_bounds:
  assumes "0 < a"
  shows "pow2 (binary_exponent a) \<le> a \<and> a < pow2 (binary_exponent a + 1)"
proof (cases "1 \<le> a")
  case True
  let ?n = "\<lfloor>a\<rfloor>" and ?b = "bit_length \<lfloor>a\<rfloor>"
  have n: "0 < ?n" using True by simp
  from bit_length_bounds[OF n] have lo: "2 ^ (?b - 1) \<le> ?n" and hi: "?n < 2 ^ ?b" by simp_all
  have pos: "0 < ?b" using n by (simp add: bit_length.simps[of ?n])
  have k: "binary_exponent a = int (?b - 1)" using True pos by (simp add: binary_exponent_def)
  have "(of_int (2 ^ (?b - 1)) :: rat) \<le> of_int ?n" using lo by (simp only: of_int_le_iff)
  also have "\<dots> \<le> a" by simp
  finally have 1: "pow2 (binary_exponent a) \<le> a" by (simp add: k pow2_nat)
  have "?n + 1 \<le> 2 ^ ?b" using hi by simp
  then have "(of_int (?n + 1) :: rat) \<le> of_int (2 ^ ?b)" by (simp only: of_int_le_iff)
  moreover have "a < of_int (?n + 1)" by linarith
  ultimately have "a < 2 ^ ?b" by simp
  moreover have "binary_exponent a + 1 = int ?b" using k pos by simp
  ultimately have 2: "a < pow2 (binary_exponent a + 1)" by (simp add: pow2_nat)
  from 1 2 show ?thesis by simp
next
  case False
  let ?y = "1 / a"
  let ?m = "\<lceil>?y\<rceil> - 1" and ?b = "bit_length (\<lceil>1 / a\<rceil> - 1)"
  have y: "1 < ?y" using False assms by simp
  then have m: "0 < ?m" by linarith
  from bit_length_bounds[OF m] have lo: "2 ^ (?b - 1) \<le> ?m" and hi: "?m < 2 ^ ?b" by simp_all
  have pos: "0 < ?b" using m by (simp add: bit_length.simps[of ?m])
  have k: "binary_exponent a = - int ?b" using False by (simp add: binary_exponent_def)
  have c: "\<lceil>?y\<rceil> \<le> 2 ^ ?b" using hi by simp
  have "?y \<le> of_int \<lceil>?y\<rceil>" by (rule le_of_int_ceiling)
  also have "\<dots> \<le> of_int (2 ^ ?b)" using c by (simp only: of_int_le_iff)
  also have "\<dots> = 2 ^ ?b" by simp
  finally have "?y \<le> 2 ^ ?b" .
  then have "1 / 2 ^ ?b \<le> a" using assms by (simp add: field_simps)
  then have 1: "pow2 (binary_exponent a) \<le> a" by (simp add: k pow2_neg_nat)
  have "(of_int (2 ^ (?b - 1)) :: rat) \<le> of_int ?m" using lo by (simp only: of_int_le_iff)
  moreover have "of_int ?m < ?y" by linarith
  ultimately have "2 ^ (?b - 1) < ?y" by simp
  then have "a < 1 / 2 ^ (?b - 1)" using assms by (simp add: field_simps)
  moreover have "binary_exponent a + 1 = - int (?b - 1)" using k pos by simp
  ultimately have 2: "a < pow2 (binary_exponent a + 1)" by (simp add: pow2_neg_nat)
  from 1 2 show ?thesis by simp
qed

lemma round_half_even_error: "\<bar>of_int (round_half_even y) - y\<bar> \<le> 1 / 2"
proof -
  have "of_int \<lfloor>y\<rfloor> \<le> y" "y < of_int \<lfloor>y\<rfloor> + 1" by linarith+
  then show ?thesis
    by (auto simp: round_half_even_def Let_def abs_le_iff)
qed

lemma pow2_mono: "j \<le> k \<Longrightarrow> pow2 j \<le> pow2 k"
proof -
  assume "j \<le> k"
  then obtain d where d: "k = j + int d" by (metis nonneg_int_cases zle_iff_zadd)
  have "pow2 k = pow2 j * 2 ^ d" by (simp add: d pow2_add pow2_nat)
  moreover have "(1::rat) \<le> 2 ^ d" by simp
  ultimately show ?thesis using pow2_pos[of j] by (simp add: mult_le_cancel_left1)
qed

lemma pow2_less_imp: "pow2 j < pow2 k \<Longrightarrow> j < k"
  using pow2_mono[of k j] by (cases "j < k") auto

text \<open>In the normal range a result is within half a unit in the last place.\<close>

lemma round_double_error:
  assumes "pow2 (- 1022) \<le> \<bar>x\<bar>"
  shows "\<bar>round_double x - x\<bar> \<le> \<bar>x\<bar> / 2 ^ 53"
proof -
  let ?a = "\<bar>x\<bar>"
  let ?k = "binary_exponent ?a"
  have a: "0 < ?a" using assms pow2_pos[of "- 1022"] by linarith
  then have x0: "x \<noteq> 0" by simp
  from binary_exponent_bounds[OF a] have lo: "pow2 ?k \<le> ?a" and hi: "?a < pow2 (?k + 1)" by simp_all
  have "pow2 (- 1022) < pow2 (?k + 1)" using assms hi by linarith
  then have k: "- 1022 \<le> ?k" using pow2_less_imp by fastforce
  then have mx: "max (?k - 52) (- 1074) = ?k - 52" by simp
  let ?u = "pow2 (?k - 52)"
  let ?m = "round_half_even (?a / ?u)"
  have u: "0 < ?u" by (rule pow2_pos)
  have rd: "round_double x = sgn x * of_int ?m * ?u"
    using x0 by (simp add: round_double_def Let_def mx)
  have "round_double x - x = sgn x * (of_int ?m * ?u) - sgn x * ?a"
    by (simp add: rd sgn_mult_abs mult.assoc)
  then have "\<bar>round_double x - x\<bar> = \<bar>sgn x * (of_int ?m * ?u - ?a)\<bar>"
    by (simp add: right_diff_distrib)
  also have "\<dots> = \<bar>of_int ?m * ?u - ?a\<bar>"
    using x0 by (simp add: abs_mult abs_sgn_eq)
  also have "\<dots> = \<bar>of_int ?m - ?a / ?u\<bar> * ?u"
  proof -
    have "of_int ?m * ?u - ?a = (of_int ?m - ?a / ?u) * ?u" using u by (simp add: field_simps)
    then show ?thesis using u by (simp add: abs_mult)
  qed
  also have "\<dots> \<le> 1 / 2 * ?u"
    using round_half_even_error[of "?a / ?u"] u by (simp add: mult_right_mono)
  also have "\<dots> = pow2 ?k / 2 ^ 53"
  proof -
    have "pow2 ?k = pow2 ((?k - 52) + 52)" by simp
    also have "\<dots> = ?u * 2 ^ 52" by (simp only: pow2_add) (simp add: pow2_def)
    finally show ?thesis by simp
  qed
  also have "\<dots> \<le> ?a / 2 ^ 53" using lo by (simp add: divide_right_mono)
  finally show ?thesis .
qed


lemma round_double_error':
  "normal_range x \<Longrightarrow> \<bar>round_double x - x\<bar> \<le> \<bar>x\<bar> * (1 / 2 ^ 53)"
  using round_double_error[of x] by (auto simp: normal_range_def round_double_def)

lemma scaled_error:
  assumes "normal_range q" and "normal_range (b * round_double q)"
  shows "\<bar>round_double (b * round_double q) - b * q\<bar>
           \<le> \<bar>b * q\<bar> * (2 * (1 / 2 ^ 53) + (1 / 2 ^ 53) * (1 / 2 ^ 53))"
proof -
  let ?e = "1 / 2 ^ 53 :: rat"
  let ?s = "round_double q"
  have e0: "0 \<le> ?e" by simp
  have e1: "\<bar>?s - q\<bar> \<le> \<bar>q\<bar> * ?e" using assms(1) by (rule round_double_error')
  have e2: "\<bar>round_double (b * ?s) - b * ?s\<bar> \<le> \<bar>b * ?s\<bar> * ?e"
    using assms(2) by (rule round_double_error')
  have "\<bar>?s\<bar> \<le> \<bar>q\<bar> + \<bar>?s - q\<bar>" by linarith
  with e1 have s: "\<bar>?s\<bar> \<le> \<bar>q\<bar> + \<bar>q\<bar> * ?e" by linarith
  have "\<bar>b * ?s\<bar> = \<bar>b\<bar> * \<bar>?s\<bar>" by (rule abs_mult)
  also have "\<dots> \<le> \<bar>b\<bar> * (\<bar>q\<bar> + \<bar>q\<bar> * ?e)" using s by (rule mult_left_mono) simp
  finally have bs: "\<bar>b * ?s\<bar> \<le> \<bar>b\<bar> * (\<bar>q\<bar> + \<bar>q\<bar> * ?e)" .
  have "\<bar>b * ?s\<bar> * ?e \<le> \<bar>b\<bar> * (\<bar>q\<bar> + \<bar>q\<bar> * ?e) * ?e"
    using bs e0 by (rule mult_right_mono)
  with e2 have t1: "\<bar>round_double (b * ?s) - b * ?s\<bar> \<le> \<bar>b\<bar> * (\<bar>q\<bar> + \<bar>q\<bar> * ?e) * ?e"
    by linarith
  have "\<bar>b * ?s - b * q\<bar> = \<bar>b\<bar> * \<bar>?s - q\<bar>"
    by (simp add: abs_mult flip: right_diff_distrib)
  also have "\<dots> \<le> \<bar>b\<bar> * (\<bar>q\<bar> * ?e)" using e1 by (rule mult_left_mono) simp
  finally have t2: "\<bar>b * ?s - b * q\<bar> \<le> \<bar>b\<bar> * (\<bar>q\<bar> * ?e)" .
  have "\<bar>round_double (b * ?s) - b * q\<bar>
          \<le> \<bar>round_double (b * ?s) - b * ?s\<bar> + \<bar>b * ?s - b * q\<bar>" by linarith
  also have "\<dots> \<le> \<bar>b\<bar> * (\<bar>q\<bar> + \<bar>q\<bar> * ?e) * ?e + \<bar>b\<bar> * (\<bar>q\<bar> * ?e)"
    using t1 t2 by linarith
  also have "\<dots> = \<bar>b * q\<bar> * (2 * ?e + ?e * ?e)"
  proof -
    have "B * (Q + Q * e) * e + B * (Q * e) = B * Q * (2 * e + e * e)" for B Q e :: rat
      by algebra
    then show ?thesis by (simp only: abs_mult)
  qed
  finally show ?thesis .
qed

lemma flipped_error:
  assumes "normal_range q" and "normal_range (b * round_double q)"
    and "normal_range (h - round_double (b * round_double q))"
  shows "\<bar>round_double (h - round_double (b * round_double q)) - (h - b * q)\<bar>
           \<le> \<bar>h - b * q\<bar> * (1 / 2 ^ 53)
             + \<bar>b * q\<bar> * (2 * (1 / 2 ^ 53) + (1 / 2 ^ 53) * (1 / 2 ^ 53)) * (1 + 1 / 2 ^ 53)"
proof -
  let ?e = "1 / 2 ^ 53 :: rat"
  let ?m = "round_double (b * round_double q)"
  let ?E = "\<bar>b * q\<bar> * (2 * ?e + ?e * ?e)"
  have e0: "0 \<le> ?e" by simp
  have m: "\<bar>?m - b * q\<bar> \<le> ?E" using assms(1,2) by (rule scaled_error)
  have t: "\<bar>round_double (h - ?m) - (h - ?m)\<bar> \<le> \<bar>h - ?m\<bar> * ?e"
    using assms(3) by (rule round_double_error')
  have "\<bar>h - ?m\<bar> \<le> \<bar>h - b * q\<bar> + \<bar>?m - b * q\<bar>" by linarith
  with m have "\<bar>h - ?m\<bar> \<le> \<bar>h - b * q\<bar> + ?E" by linarith
  then have "\<bar>h - ?m\<bar> * ?e \<le> (\<bar>h - b * q\<bar> + ?E) * ?e" using e0 by (rule mult_right_mono)
  with t have t': "\<bar>round_double (h - ?m) - (h - ?m)\<bar> \<le> (\<bar>h - b * q\<bar> + ?E) * ?e" by linarith
  have "\<bar>round_double (h - ?m) - (h - b * q)\<bar>
          \<le> \<bar>round_double (h - ?m) - (h - ?m)\<bar> + \<bar>?m - b * q\<bar>" by linarith
  also have "\<dots> \<le> (\<bar>h - b * q\<bar> + ?E) * ?e + ?E" using t' m by linarith
  also have "\<dots> = \<bar>h - b * q\<bar> * ?e + ?E * (1 + ?e)"
  proof -
    have "(H + E) * e + E = H * e + E * (1 + e)" for H E e :: rat
      by algebra
    then show ?thesis .
  qed
  finally show ?thesis .
qed


lemma round_half_even_of_int: "round_half_even (of_int j) = j"
  by (simp add: round_half_even_def)

text \<open>An integer of magnitude below \<open>2^53\<close> is a double: converting it does not round.\<close>

lemma round_double_of_int:
  assumes "\<bar>n\<bar> < 2 ^ 53"
  shows "round_double (of_int n) = of_int n"
proof (cases "n = 0")
  case True
  then show ?thesis by (simp add: round_double_def)
next
  case False
  let ?a = "\<bar>of_int n :: rat\<bar>"
  let ?k = "binary_exponent ?a"
  have a1: "1 \<le> ?a" using False by (simp flip: of_int_abs)
  then have a: "0 < ?a" by linarith
  from binary_exponent_bounds[OF a] have lo: "pow2 ?k \<le> ?a" and hi: "?a < pow2 (?k + 1)" by simp_all
  have "?a < 2 ^ 53"
    using assms by (metis of_int_abs of_int_less_iff of_int_numeral of_int_power)
  then have "pow2 ?k < pow2 53" using lo by (simp add: pow2_def)
  then have k53: "?k < 53" by (rule pow2_less_imp)
  have "pow2 0 < pow2 (?k + 1)" using a1 hi by (simp add: pow2_def)
  then have k0: "0 \<le> ?k" using pow2_less_imp by fastforce
  define d where "d = nat (52 - ?k)"
  have kd: "?k - 52 = - int d" using k53 by (simp add: d_def)
  have mx: "max (?k - 52) (- 1074) = - int d" using k0 kd by simp
  have u: "pow2 (- int d) = 1 / 2 ^ d" by (rule pow2_neg_nat)
  have q: "?a / pow2 (- int d) = of_int (\<bar>n\<bar> * 2 ^ d)" by (simp add: u)
  have m: "round_half_even (?a / pow2 (- int d)) = \<bar>n\<bar> * 2 ^ d"
    by (simp only: q round_half_even_of_int)
  have "round_double (of_int n) =
          sgn (of_int n) * of_int (round_half_even (?a / pow2 (- int d))) * pow2 (- int d)"
    using False by (simp add: round_double_def Let_def mx)
  also have "\<dots> = sgn (of_int n) * of_int (\<bar>n\<bar> * 2 ^ d) * (1 / 2 ^ d)"
    by (simp only: m) (simp only: u)
  also have "\<dots> = sgn (of_int n) * ?a" by simp
  also have "\<dots> = of_int n" by (rule sgn_mult_abs)
  finally show ?thesis .
qed

subsection \<open>The validator's loops as capped emission\<close>

lemma check_pairs_emit:
  "length ms < 20 \<Longrightarrow> check_pairs bi rest (ms, f) = emit (ms, f) (pair_findings bi rest)"
proof (induction rest arbitrary: ms f)
  case Nil
  then show ?case by (simp add: emit_def pair_findings_def)
next
  case (Cons bj rest)
  show ?case
  proof (cases "pair_reported bi bj")
    case False
    then show ?thesis using Cons by (simp add: pair_findings_def)
  next
    case True
    show ?thesis
    proof (cases "length ms = 19")
      case True
      with \<open>pair_reported bi bj\<close> show ?thesis
        by (simp add: emit_def pair_findings_def)
    next
      case False
      with Cons.prems have lt: "length (ms @ [pair_message bi bj]) < 20" by simp
      from Cons.IH[OF lt, of True] \<open>pair_reported bi bj\<close> lt Cons.prems show ?thesis
        by (simp add: emit_def pair_findings_def take_Cons')
    qed
  qed
qed

lemma check_height_emit:
  "length ms < 20 \<Longrightarrow> check_height bi (ms, f) = emit (ms, f) (height_findings bi)"
  by (auto simp: check_height_def emit_def height_findings_def Let_def split: option.splits)

lemma emit_emit:
  "length ms < 20 \<Longrightarrow>
   (case emit (ms, f) fs of Inl r \<Rightarrow> Inl r | Inr st \<Rightarrow> emit st gs) = emit (ms, f) (fs @ gs)"
  by (auto simp: emit_def)

lemma emit_Inr_length: "emit (ms, f) fs = Inr (ms', f') \<Longrightarrow> length ms' < 20"
  by (auto simp: emit_def split: if_splits)

lemma check_boxes_emit:
  "length ms < 20 \<Longrightarrow> check_boxes bl (ms, f) = emit (ms, f) (all_findings bl)"
proof (induction bl arbitrary: ms f)
  case Nil
  then show ?case by (simp add: emit_def)
next
  case (Cons bi rest)
  let ?P = "pair_findings bi rest" and ?H = "height_findings bi" and ?A = "all_findings rest"
  have cp: "check_pairs bi rest (ms, f) = emit (ms, f) ?P"
    using Cons.prems by (rule check_pairs_emit)
  have e1: "(case emit (ms, f) ?P of Inl r \<Rightarrow> Inl r | Inr st \<Rightarrow> emit st (?H @ ?A))
              = emit (ms, f) (all_findings (bi # rest))"
    using emit_emit[OF Cons.prems] by simp
  show ?case
  proof (cases "emit (ms, f) ?P")
    case (Inl r)
    have "check_boxes (bi # rest) (ms, f) = Inl r" by (simp add: cp Inl)
    moreover have "emit (ms, f) (all_findings (bi # rest)) = Inl r"
      using e1 by (simp add: Inl)
    ultimately show ?thesis by simp
  next
    case (Inr st1)
    obtain ms1 f1 where st1: "st1 = (ms1, f1)" by (cases st1)
    have l1: "length ms1 < 20" using Inr st1 emit_Inr_length by blast
    have ch: "check_height bi (ms1, f1) = emit (ms1, f1) ?H"
      using l1 by (rule check_height_emit)
    have e2: "(case emit (ms1, f1) ?H of Inl r \<Rightarrow> Inl r | Inr st \<Rightarrow> emit st ?A)
                = emit (ms1, f1) (?H @ ?A)"
      using emit_emit[OF l1] by simp
    have e3: "emit (ms, f) (all_findings (bi # rest)) = emit (ms1, f1) (?H @ ?A)"
      using e1 by (simp add: Inr st1)
    show ?thesis
    proof (cases "emit (ms1, f1) ?H")
      case (Inl r)
      have "check_boxes (bi # rest) (ms, f) = Inl r"
        by (simp add: cp \<open>emit (ms, f) ?P = Inr st1\<close> st1 ch Inl)
      moreover have "emit (ms1, f1) (?H @ ?A) = Inl r" using e2 by (simp add: Inl)
      ultimately show ?thesis using e3 by simp
    next
      case (Inr st2)
      obtain ms2 f2 where st2: "st2 = (ms2, f2)" by (cases st2)
      have l2: "length ms2 < 20" using Inr st2 emit_Inr_length by blast
      have "check_boxes (bi # rest) (ms, f) = check_boxes rest (ms2, f2)"
        by (simp add: cp \<open>emit (ms, f) ?P = Inr st1\<close> st1 ch Inr st2)
      also have "\<dots> = emit (ms2, f2) ?A" using l2 by (rule Cons.IH)
      also have "\<dots> = emit (ms1, f1) (?H @ ?A)" using e2 by (simp add: Inr st2)
      finally show ?thesis using e3 by simp
    qed
  qed
qed

lemma validate_form_layout_findings:
  "validate_form_layout es =
     (let fs = all_findings (make_bounds_list es) in
      if length fs < 19 then Read_count (length es) # fs @ (if fs = [] then [Success] else [])
      else Read_count (length es) # take 19 fs @ [Abort_notice])"
  by (simp add: validate_form_layout_def check_boxes_emit emit_def Let_def)

lemma pair_findings_not_abort: "Abort_notice \<notin> set (pair_findings bi rest)"
  by (auto simp: pair_findings_def pair_message_def)

lemma height_findings_shape:
  "height_findings bi = [] \<or> (\<exists>d a b. height_findings bi = [Fail_height d a b])"
  by (simp add: height_findings_def Let_def split: option.split)

lemma height_findings_not_abort: "Abort_notice \<notin> set (height_findings bi)"
  using height_findings_shape[of bi] by auto

lemma all_findings_not_abort: "Abort_notice \<notin> set (all_findings bl)"
  by (induction bl) (simp_all add: pair_findings_not_abort height_findings_not_abort)

lemma truncated_iff:
  "Abort_notice \<in> set (validate_form_layout es) \<longleftrightarrow> 19 \<le> length (all_findings (make_bounds_list es))"
  using all_findings_not_abort[of "make_bounds_list es"]
  by (auto simp: validate_form_layout_findings Let_def dest: in_set_takeD)

text \<open>
  Claim C5. The diagnostic list of the validator is capped: whatever the layout, the
  returned list has at most 21 messages and at most one truncation notice. The list is the
  count line followed by all findings (and the success line when there is none) while
  there are fewer than 19 findings; otherwise it is the count line, the first 19 findings
  and the truncation notice, and nothing after it is evaluated. The 25 mutually
  overlapping fields of the repository's test give at most 30 messages with exactly one
  truncation notice.
\<close>

theorem validate_form_layout_capped:
  "length (validate_form_layout es) \<le> 21
   \<and> count_list (validate_form_layout es) Abort_notice \<le> 1
   \<and> validate_form_layout es =
       (let fs = all_findings (make_bounds_list es) in
        if length fs < 19 then Read_count (length es) # fs @ (if fs = [] then [Success] else [])
        else Read_count (length es) # take 19 fs @ [Abort_notice])
   \<and> length (validate_form_layout overlapping_25) \<le> 30
   \<and> count_list (validate_form_layout overlapping_25) Abort_notice = 1"
proof -
  have len: "length (validate_form_layout es) \<le> 21"
    by (simp add: validate_form_layout_findings Let_def)
  have "Abort_notice \<notin> set (take 19 (all_findings (make_bounds_list es)))"
    using all_findings_not_abort[of "make_bounds_list es"] by (auto dest: in_set_takeD)
  then have cnt: "count_list (validate_form_layout es) Abort_notice \<le> 1"
    using all_findings_not_abort[of "make_bounds_list es"]
    by (simp add: validate_form_layout_findings Let_def)
  have t1: "length (validate_form_layout overlapping_25) \<le> 30" by code_simp
  have t2: "count_list (validate_form_layout overlapping_25) Abort_notice = 1" by code_simp
  show ?thesis using len cnt t1 t2 validate_form_layout_findings[of es] by simp
qed

theorem validate_form_layout_capped_witness:
  "length (validate_form_layout overlapping_25) \<le> 21
   \<and> count_list (validate_form_layout overlapping_25) Abort_notice = 1"
  using validate_form_layout_capped[of overlapping_25] by blast

lemma convert_example_entry:
  "convert_image_to_pdf_coords (60, 10, 150, 30) 200 100 400 200 = Inr (120, 140, 300, 180)"
  by code_simp

text \<open>
  Claim C6, as stated, fails: the coordinate mapper computes on doubles. For the box
  \<open>[100,100,200,200]\<close> of a 1000 x 1000 image on a 612.0 x 792.0 page it returns
  \<open>left = 61.199999999999996\<close> (and \<open>right = 122.39999999999999\<close>), which is neither the
  value \<open>61.2\<close> of the stated formula nor the double nearest to it.
\<close>

theorem exact_formula_counterexample:
  "convert_image_to_pdf_coords (100, 100, 200, 200) 1000 1000 612 792 =
     Inr (8613134287346073 / 140737488355328, 5573204538870989 / 8796093022208,
          8613134287346073 / 70368744177664, 3134927553114931 / 4398046511104)
   \<and> spec_map (100, 100, 200, 200) 1000 1000 612 792 = (306 / 5, 3168 / 5, 612 / 5, 3564 / 5)
   \<and> (8613134287346073 / 140737488355328 :: rat) \<noteq> 306 / 5
   \<and> (8613134287346073 / 140737488355328 :: rat) \<noteq> round_double (306 / 5)"
proof -
  have c: "convert_image_to_pdf_coords (100, 100, 200, 200) 1000 1000 612 792 =
     Inr (8613134287346073 / 140737488355328, 5573204538870989 / 8796093022208,
          8613134287346073 / 70368744177664, 3134927553114931 / 4398046511104)"
    by code_simp
  have m: "spec_map (100, 100, 200, 200) 1000 1000 612 792 = (306 / 5, 3168 / 5, 612 / 5, 3564 / 5)"
    by (simp add: spec_map_def)
  have r: "round_double (306 / 5) = 4306567143673037 / 70368744177664"
    by code_simp
  show ?thesis
    by (simp add: c m r)
qed

text \<open>
  Claim C6, amended. For image dimensions other than zero (so for positive ones) the
  coordinate mapper returns \<open>(left, bottom_pdf, right, top_pdf)\<close> computed in double
  arithmetic, every operation rounded to the nearest double: with the scales
  \<open>x_scale = page_w / image_w\<close> and \<open>y_scale = page_h / image_h\<close> computed first,
  \<open>left = bbox.left * x_scale\<close>, \<open>right = bbox.right * x_scale\<close>,
  \<open>top_pdf = page_h - bbox.top * y_scale\<close> and \<open>bottom_pdf = page_h - bbox.bottom * y_scale\<close>.
  These differ from the stated formula by rounding only: as long as the intermediate
  results are in the normal range of doubles, a horizontal coordinate \<open>x * x_scale\<close> is
  within the relative error \<open>2^(-52) + 2^(-106)\<close> of \<open>x * page_w / image_w\<close>, and a vertical
  coordinate \<open>page_h - y * y_scale\<close> is within
  \<open>|page_h - y * page_h / image_h| * 2^(-53) +
   |y * page_h / image_h| * (2^(-52) + 2^(-106)) * (1 + 2^(-53))\<close> of
  \<open>page_h - y * page_h / image_h\<close>. Where no operation rounds, the result is that of the
  stated formula: the box \<open>[0,0,100,50]\<close> of a 200 x 100 image on a 400 x 200 page gives
  left 0, bottom 100, right 200, top 200.
\<close>

theorem convert_image_to_pdf_coords_rounded:
  "(img_width \<noteq> 0 \<and> img_height \<noteq> 0 \<longrightarrow>
      convert_image_to_pdf_coords bbox img_width img_height pdf_width pdf_height =
        Inr (float_mul (b0 bbox) (float_div pdf_width img_width),
             float_sub pdf_height (float_mul (b3 bbox) (float_div pdf_height img_height)),
             float_mul (b2 bbox) (float_div pdf_width img_width),
             float_sub pdf_height (float_mul (b1 bbox) (float_div pdf_height img_height))))
   \<and> (normal_range (pdf_width / img_width) \<and> normal_range (x * float_div pdf_width img_width) \<longrightarrow>
        \<bar>float_mul x (float_div pdf_width img_width) - x * pdf_width / img_width\<bar>
          \<le> \<bar>x * pdf_width / img_width\<bar> * (2 * (1 / 2 ^ 53) + (1 / 2 ^ 53) * (1 / 2 ^ 53)))
   \<and> (normal_range (pdf_height / img_height) \<and> normal_range (y * float_div pdf_height img_height)
        \<and> normal_range (pdf_height - float_mul y (float_div pdf_height img_height)) \<longrightarrow>
        \<bar>float_sub pdf_height (float_mul y (float_div pdf_height img_height))
           - (pdf_height - y * pdf_height / img_height)\<bar>
          \<le> \<bar>pdf_height - y * pdf_height / img_height\<bar> * (1 / 2 ^ 53)
            + \<bar>y * pdf_height / img_height\<bar> * (2 * (1 / 2 ^ 53) + (1 / 2 ^ 53) * (1 / 2 ^ 53))
                * (1 + 1 / 2 ^ 53))
   \<and> convert_image_to_pdf_coords (0, 0, 100, 50) 200 100 400 200 = Inr (0, 100, 200, 200)
   \<and> Inr (spec_map (0, 0, 100, 50) 200 100 400 200) =
        convert_image_to_pdf_coords (0, 0, 100, 50) 200 100 400 200"
proof -
  have g: "img_width \<noteq> 0 \<and> img_height \<noteq> 0 \<longrightarrow>
      convert_image_to_pdf_coords bbox img_width img_height pdf_width pdf_height =
        Inr (float_mul (b0 bbox) (float_div pdf_width img_width),
             float_sub pdf_height (float_mul (b3 bbox) (float_div pdf_height img_height)),
             float_mul (b2 bbox) (float_div pdf_width img_width),
             float_sub pdf_height (float_mul (b1 bbox) (float_div pdf_height img_height)))"
    by (simp add: convert_image_to_pdf_coords_def Let_def)
  have h: "normal_range (pdf_width / img_width) \<and> normal_range (x * float_div pdf_width img_width) \<longrightarrow>
        \<bar>float_mul x (float_div pdf_width img_width) - x * pdf_width / img_width\<bar>
          \<le> \<bar>x * pdf_width / img_width\<bar> * (2 * (1 / 2 ^ 53) + (1 / 2 ^ 53) * (1 / 2 ^ 53))"
    using scaled_error[of "pdf_width / img_width" x]
    by (simp add: float_mul_def float_div_def)
  have v: "normal_range (pdf_height / img_height) \<and> normal_range (y * float_div pdf_height img_height)
        \<and> normal_range (pdf_height - float_mul y (float_div pdf_height img_height)) \<longrightarrow>
        \<bar>float_sub pdf_height (float_mul y (float_div pdf_height img_height))
           - (pdf_height - y * pdf_height / img_height)\<bar>
          \<le> \<bar>pdf_height - y * pdf_height / img_height\<bar> * (1 / 2 ^ 53)
            + \<bar>y * pdf_height / img_height\<bar> * (2 * (1 / 2 ^ 53) + (1 / 2 ^ 53) * (1 / 2 ^ 53))
                * (1 + 1 / 2 ^ 53)"
    using flipped_error[of "pdf_height / img_height" y pdf_height]
    by (simp add: float_mul_def float_div_def float_sub_def)
  have e: "convert_image_to_pdf_coords (0, 0, 100, 50) 200 100 400 200 = Inr (0, 100, 200, 200)"
    by code_simp
  have m: "spec_map (0, 0, 100, 50) 200 100 400 200 = (0, 100, 200, 200)"
    by (simp add: spec_map_def)
  from g h v e m show ?thesis by simp
qed

lemma normal_range_ge: "1 / 1000000 \<le> \<bar>x\<bar> \<Longrightarrow> normal_range x"
proof -
  assume a: "1 / 1000000 \<le> \<bar>x\<bar>"
  have "pow2 (- 1022) \<le> pow2 (- 20)" by (rule pow2_mono) simp
  also have "\<dots> \<le> 1 / 1000000" by (simp add: pow2_def)
  finally show ?thesis using a by (simp add: normal_range_def)
qed

theorem convert_image_to_pdf_coords_rounded_witness:
  "(1000 :: rat) \<noteq> 0
   \<and> convert_image_to_pdf_coords (100, 100, 200, 200) 1000 1000 612 792 =
        Inr (float_mul 100 (float_div 612 1000),
             float_sub 792 (float_mul 200 (float_div 792 1000)),
             float_mul 200 (float_div 612 1000),
             float_sub 792 (float_mul 100 (float_div 792 1000)))
   \<and> normal_range (612 / 1000) \<and> normal_range (100 * float_div 612 1000)
   \<and> \<bar>float_mul 100 (float_div 612 1000) - 100 * 612 / 1000\<bar>
        \<le> \<bar>100 * 612 / 1000\<bar> * (2 * (1 / 2 ^ 53) + (1 / 2 ^ 53) * (1 / 2 ^ 53))
   \<and> normal_range (792 / 1000) \<and> normal_range (100 * float_div 792 1000)
   \<and> normal_range (792 - float_mul 100 (float_div 792 1000))
   \<and> \<bar>float_sub 792 (float_mul 100 (float_div 792 1000)) - (792 - 100 * 792 / 1000)\<bar>
        \<le> \<bar>792 - 100 * 792 / 1000\<bar> * (1 / 2 ^ 53)
          + \<bar>100 * 792 / 1000\<bar> * (2 * (1 / 2 ^ 53) + (1 / 2 ^ 53) * (1 / 2 ^ 53)) * (1 + 1 / 2 ^ 53)"
proof -
  note th = convert_image_to_pdf_coords_rounded[where img_width = 1000 and img_height = 1000
      and bbox = "(100, 100, 200, 200)" and pdf_width = 612 and pdf_height = 792
      and x = 100 and y = 100]
  have fx: "float_div 612 1000 = 5512405943901487 / 9007199254740992" by code_simp
  have fy: "float_div 792 1000 = 3566850904877433 / 4503599627370496" by code_simp
  have my: "float_mul 100 (float_div 792 1000) = 5573204538870989 / 70368744177664" by code_simp
  have n1: "normal_range (612 / 1000)" by (rule normal_range_ge) simp
  have n2: "normal_range (100 * float_div 612 1000)" by (rule normal_range_ge) (simp add: fx)
  have n3: "normal_range (792 / 1000)" by (rule normal_range_ge) simp
  have n4: "normal_range (100 * float_div 792 1000)" by (rule normal_range_ge) (simp add: fy)
  have n5: "normal_range (792 - float_mul 100 (float_div 792 1000))"
    by (rule normal_range_ge) (simp add: my)
  have c: "convert_image_to_pdf_coords (100, 100, 200, 200) 1000 1000 612 792 =
        Inr (float_mul 100 (float_div 612 1000),
             float_sub 792 (float_mul 200 (float_div 792 1000)),
             float_mul 200 (float_div 612 1000),
             float_sub 792 (float_mul 100 (float_div 792 1000)))"
    using th by simp
  have l: "\<bar>float_mul 100 (float_div 612 1000) - 100 * 612 / 1000\<bar>
        \<le> \<bar>100 * 612 / 1000\<bar> * (2 * (1 / 2 ^ 53) + (1 / 2 ^ 53) * (1 / 2 ^ 53))"
    using th n1 n2 by blast
  have t: "\<bar>float_sub 792 (float_mul 100 (float_div 792 1000)) - (792 - 100 * 792 / 1000)\<bar>
        \<le> \<bar>792 - 100 * 792 / 1000\<bar> * (1 / 2 ^ 53)
          + \<bar>100 * 792 / 1000\<bar> * (2 * (1 / 2 ^ 53) + (1 / 2 ^ 53) * (1 / 2 ^ 53)) * (1 + 1 / 2 ^ 53)"
    using th n3 n4 n5 by blast
  from c n1 n2 n3 n4 n5 l t show ?thesis by simp
qed

lemma filter_overlap_pair_findings:
  "filter is_overlap_message (pair_findings bi rest) = pair_findings bi rest"
  by (induction rest) (auto simp: pair_findings_def pair_message_def)

lemma filter_overlap_height_findings:
  "filter is_overlap_message (height_findings bi) = []"
  using height_findings_shape[of bi] by auto

lemma filter_overlap_all_findings:
  "filter is_overlap_message (all_findings xs) =
     map (\<lambda>(bi, bj). pair_message bi bj) (filter (\<lambda>(bi, bj). pair_reported bi bj) (later_pairs xs))"
proof (induction xs)
  case Nil
  show ?case by simp
next
  case (Cons x xs)
  have "map (\<lambda>(bi, bj). pair_message bi bj) (filter (\<lambda>(bi, bj). pair_reported bi bj) (map (Pair x) xs))
          = pair_findings x xs"
    by (induction xs) (simp_all add: pair_findings_def)
  then show ?case
    using Cons by (simp add: filter_overlap_pair_findings filter_overlap_height_findings)
qed

text \<open>
  Claim C4, as stated, fails: with the boxes stored as \<open>[left, top, right, bottom]\<close>, the
  stated formula finds no overlap between \<open>[0,0,10,10]\<close> and \<open>[9,0,20,10]\<close> (its vertical
  comparisons are reversed), while the validator reports one.
\<close>

theorem spec_overlap_counterexample:
  "validate_form_layout [two_box_entry 1 (0, 0, 10, 10) (9, 0, 20, 10)] =
     [Read_count 1, Fail_same_entry_overlap ''Name'' (0, 0, 10, 10) (9, 0, 20, 10)]
   \<and> \<not> spec_overlap (0, 0, 10, 10) (9, 0, 20, 10)"
  by (simp add: spec_overlap_def) code_simp

text \<open>
  Claim C4, amended. Two boxes overlap iff not (\<open>a.right <= b.left\<close> or
  \<open>a.left >= b.right\<close> or \<open>a.bottom <= b.top\<close> or \<open>a.top >= b.bottom\<close>), with
  \<open>top = a[1]\<close> and \<open>bottom = a[3]\<close>. As long as the run is not truncated, the overlap
  diagnostics are exactly those of the pairs of boxes on the same page that overlap in this
  sense, in the order of the loops: a pair on different pages is never reported. Boxes that
  touch at an edge do not overlap: \<open>[0,0,10,10]\<close> and \<open>[10,0,20,10]\<close> give no diagnostic,
  \<open>[0,0,10,10]\<close> and \<open>[9,0,20,10]\<close> give one.
\<close>

theorem overlap_reporting:
  "(bounds_overlap a b \<longleftrightarrow> \<not> (b2 a \<le> b0 b \<or> b0 a \<ge> b2 b \<or> b3 a \<le> b1 b \<or> b1 a \<ge> b3 b))
   \<and> (Abort_notice \<notin> set (validate_form_layout es) \<longrightarrow>
        filter is_overlap_message (validate_form_layout es) =
          map (\<lambda>(bi, bj). pair_message bi bj)
            (filter (\<lambda>(bi, bj). fe_page_num (bae_entry bi) = fe_page_num (bae_entry bj)
                                \<and> bounds_overlap (bae_bounds bi) (bae_bounds bj))
               (later_pairs (make_bounds_list es))))
   \<and> validate_form_layout [two_box_entry 1 (0, 0, 10, 10) (10, 0, 20, 10)] = [Read_count 1, Success]
   \<and> validate_form_layout [two_box_entry 1 (0, 0, 10, 10) (9, 0, 20, 10)] =
        [Read_count 1, Fail_same_entry_overlap ''Name'' (0, 0, 10, 10) (9, 0, 20, 10)]
   \<and> validate_form_layout [two_box_entry 1 (10, 10, 50, 30) (60, 10, 150, 30),
                            two_box_entry 2 (10, 10, 50, 30) (60, 10, 150, 30)] =
        [Read_count 2, Success]"
proof -
  have f: "bounds_overlap a b \<longleftrightarrow> \<not> (b2 a \<le> b0 b \<or> b0 a \<ge> b2 b \<or> b3 a \<le> b1 b \<or> b1 a \<ge> b3 b)"
    by (auto simp: bounds_overlap_def Let_def)
  have r: "Abort_notice \<notin> set (validate_form_layout es) \<longrightarrow>
        filter is_overlap_message (validate_form_layout es) =
          map (\<lambda>(bi, bj). pair_message bi bj)
            (filter (\<lambda>(bi, bj). fe_page_num (bae_entry bi) = fe_page_num (bae_entry bj)
                                \<and> bounds_overlap (bae_bounds bi) (bae_bounds bj))
               (later_pairs (make_bounds_list es)))"
  proof
    assume "Abort_notice \<notin> set (validate_form_layout es)"
    then have "length (all_findings (make_bounds_list es)) < 19"
      using truncated_iff[of es] by simp
    then have "filter is_overlap_message (validate_form_layout es)
                 = filter is_overlap_message (all_findings (make_bounds_list es))"
      by (simp add: validate_form_layout_findings Let_def)
    then show "filter is_overlap_message (validate_form_layout es) =
          map (\<lambda>(bi, bj). pair_message bi bj)
            (filter (\<lambda>(bi, bj). fe_page_num (bae_entry bi) = fe_page_num (bae_entry bj)
                                \<and> bounds_overlap (bae_bounds bi) (bae_bounds bj))
               (later_pairs (make_bounds_list es)))"
      by (simp add: filter_overlap_all_findings pair_reported_def)
  qed
  have t1: "validate_form_layout [two_box_entry 1 (0, 0, 10, 10) (10, 0, 20, 10)] = [Read_count 1, Success]"
    by code_simp
  have t2: "validate_form_layout [two_box_entry 1 (0, 0, 10, 10) (9, 0, 20, 10)] =
        [Read_count 1, Fail_same_entry_overlap ''Name'' (0, 0, 10, 10) (9, 0, 20, 10)]"
    by code_simp
  have t3: "validate_form_layout [two_box_entry 1 (10, 10, 50, 30) (60, 10, 150, 30),
                            two_box_entry 2 (10, 10, 50, 30) (60, 10, 150, 30)] =
        [Read_count 2, Success]"
    by code_simp
  from f r t1 t2 t3 show ?thesis by blast
qed

theorem overlap_reporting_witness:
  "Abort_notice \<notin> set (validate_form_layout [two_box_entry 1 (0, 0, 10, 10) (9, 0, 20, 10)])
   \<and> filter is_overlap_message (validate_form_layout [two_box_entry 1 (0, 0, 10, 10) (9, 0, 20, 10)]) =
       [Fail_same_entry_overlap ''Name'' (0, 0, 10, 10) (9, 0, 20, 10)]"
proof -
  let ?es = "[two_box_entry 1 (0, 0, 10, 10) (9, 0, 20, 10)]"
  have h: "Abort_notice \<notin> set (validate_form_layout ?es)"
    by code_simp
  have "filter is_overlap_message (validate_form_layout ?es) =
          map (\<lambda>(bi, bj). pair_message bi bj)
            (filter (\<lambda>(bi, bj). fe_page_num (bae_entry bi) = fe_page_num (bae_entry bj)
                                \<and> bounds_overlap (bae_bounds bi) (bae_bounds bj))
               (later_pairs (make_bounds_list ?es)))"
    using overlap_reporting[of "(0, 0, 10, 10)" "(9, 0, 20, 10)" ?es] h by blast
  also have "\<dots> = [Fail_same_entry_overlap ''Name'' (0, 0, 10, 10) (9, 0, 20, 10)]"
    by code_simp
  finally show ?thesis using h by simp
qed











lemma find_noto:
  "find_cjk_font linux_noto =
     Some (''/usr/share/fonts/opentype/noto/NotoSansCJK-Regular.ttc'', ''NotoSansCJK'')"
  by (simp add: find_cjk_font_def CJK_FONT_PATHS_def linux_noto_def)


text \<open>
  Validation of a fill value against an element that carries the attributes of its type:
  a \<open>text_input\<close> accepts any value; a \<open>toggle_box\<close> accepts exactly its \<open>on_value\<close> and its
  \<open>off_value\<close>; an \<open>option_group\<close> accepts exactly the \<open>option_value\<close> entries of its options;
  a \<open>dropdown\<close> accepts exactly the \<open>option_value\<close> entries of its menu items; every
  rejection returns a diagnostic that names the valid values. A dropdown with the values
  \<open>a\<close>, \<open>b\<close> rejects \<open>c\<close> with a diagnostic listing \<open>[a, b]\<close>.
\<close>

lemma validate_element_value_domains:
  "(el_element_type e = ''text_input'' \<longrightarrow> validate_element_value e v = Inr None)
   \<and> (el_element_type e = ''toggle_box'' \<and> el_on_value e = Some on_val \<and> el_off_value e = Some off_val \<longrightarrow>
        validate_element_value e v =
          (if State_name v = on_val \<or> State_name v = off_val then Inr None
           else Inr (Some (Err_toggle_value (el_element_id e) v on_val off_val))))
   \<and> (el_element_type e = ''option_group'' \<and> el_available_options e = Some opts \<longrightarrow>
        validate_element_value e v =
          (if v \<in> set (map opt_option_value opts) then Inr None
           else Inr (Some (Err_option_group_value (el_element_id e) v (map opt_option_value opts)))))
   \<and> (el_element_type e = ''dropdown'' \<and> el_menu_items e = Some items \<longrightarrow>
        validate_element_value e v =
          (if v \<in> set (map mi_option_value items) then Inr None
           else Inr (Some (Err_dropdown_value (el_element_id e) v (map mi_option_value items)))))
   \<and> validate_element_value dropdown_ab ''c'' = Inr (Some (Err_dropdown_value ''choice'' ''c'' [''a'', ''b'']))"
proof -
  have t: "el_element_type e = ''text_input'' \<longrightarrow> validate_element_value e v = Inr None"
    by (simp add: validate_element_value_def Let_def)
  have g: "el_element_type e = ''toggle_box'' \<and> el_on_value e = Some on_val \<and> el_off_value e = Some off_val \<longrightarrow>
        validate_element_value e v =
          (if State_name v = on_val \<or> State_name v = off_val then Inr None
           else Inr (Some (Err_toggle_value (el_element_id e) v on_val off_val)))"
    by (simp add: validate_element_value_def Let_def)
  have o: "el_element_type e = ''option_group'' \<and> el_available_options e = Some opts \<longrightarrow>
        validate_element_value e v =
          (if v \<in> set (map opt_option_value opts) then Inr None
           else Inr (Some (Err_option_group_value (el_element_id e) v (map opt_option_value opts))))"
    by (simp add: validate_element_value_def Let_def)
  have d: "el_element_type e = ''dropdown'' \<and> el_menu_items e = Some items \<longrightarrow>
        validate_element_value e v =
          (if v \<in> set (map mi_option_value items) then Inr None
           else Inr (Some (Err_dropdown_value (el_element_id e) v (map mi_option_value items))))"
    by (simp add: validate_element_value_def Let_def)
  have ex: "validate_element_value dropdown_ab ''c'' = Inr (Some (Err_dropdown_value ''choice'' ''c'' [''a'', ''b'']))"
    by (simp add: validate_element_value_def dropdown_ab_def new_element_def)
  from t g o d ex show ?thesis by blast
qed

lemma validate_element_value_domains_examples:
  "validate_element_value text_name ''anything'' = Inr None
   \<and> validate_element_value toggle_yes ''/Yes'' = Inr None
   \<and> validate_element_value toggle_yes ''/Off'' = Inr None
   \<and> validate_element_value toggle_yes ''/On'' =
        Inr (Some (Err_toggle_value ''agree'' ''/On'' (State_name ''/Yes'') (State_name ''/Off'')))
   \<and> validate_element_value group_rb ''/Blue'' = Inr None
   \<and> validate_element_value group_rb ''/Green'' =
        Inr (Some (Err_option_group_value ''colour'' ''/Green'' [''/Red'', ''/Blue'']))
   \<and> validate_element_value dropdown_ab ''a'' = Inr None
   \<and> validate_element_value dropdown_ab ''c'' = Inr (Some (Err_dropdown_value ''choice'' ''c'' [''a'', ''b'']))"
proof -
  have t: "el_element_type text_name = ''text_input''" by (simp add: text_name_def new_element_def)
  have g: "el_element_type toggle_yes = ''toggle_box'' \<and> el_on_value toggle_yes = Some (State_name ''/Yes'')
            \<and> el_off_value toggle_yes = Some (State_name ''/Off'')" "el_element_id toggle_yes = ''agree''"
    by (simp_all add: toggle_yes_def new_element_def)
  have o: "el_element_type group_rb = ''option_group'' \<and> el_available_options group_rb =
             Some [\<lparr>opt_option_value = ''/Red'', opt_bounds = None\<rparr>,
                   \<lparr>opt_option_value = ''/Blue'', opt_bounds = None\<rparr>]" "el_element_id group_rb = ''colour''"
    by (simp_all add: group_rb_def new_element_def)
  have d: "el_element_type dropdown_ab = ''dropdown'' \<and> el_menu_items dropdown_ab =
             Some [\<lparr>mi_option_value = ''a'', mi_display_text = ''A''\<rparr>,
                   \<lparr>mi_option_value = ''b'', mi_display_text = ''B''\<rparr>]" "el_element_id dropdown_ab = ''choice''"
    by (simp_all add: dropdown_ab_def new_element_def)
  note th = validate_element_value_domains
  have 1: "validate_element_value text_name ''anything'' = Inr None"
    using th[where e = text_name and v = "''anything''"] t by blast
  have 2: "validate_element_value toggle_yes ''/Yes'' = Inr None"
    using th[where e = toggle_yes and v = "''/Yes''" and on_val = "State_name ''/Yes''"
             and off_val = "State_name ''/Off''"] g by simp
  have 3: "validate_element_value toggle_yes ''/Off'' = Inr None"
    using th[where e = toggle_yes and v = "''/Off''" and on_val = "State_name ''/Yes''"
             and off_val = "State_name ''/Off''"] g by simp
  have 4: "validate_element_value toggle_yes ''/On'' =
        Inr (Some (Err_toggle_value ''agree'' ''/On'' (State_name ''/Yes'') (State_name ''/Off'')))"
    using th[where e = toggle_yes and v = "''/On''" and on_val = "State_name ''/Yes''"
             and off_val = "State_name ''/Off''"] g by simp
  have 5: "validate_element_value group_rb ''/Blue'' = Inr None"
    using th[where e = group_rb and v = "''/Blue''" and opts = "[\<lparr>opt_option_value = ''/Red'', opt_bounds = None\<rparr>,
                   \<lparr>opt_option_value = ''/Blue'', opt_bounds = None\<rparr>]"] o by simp
  have 6: "validate_element_value group_rb ''/Green'' =
        Inr (Some (Err_option_group_value ''colour'' ''/Green'' [''/Red'', ''/Blue'']))"
    using th[where e = group_rb and v = "''/Green''" and opts = "[\<lparr>opt_option_value = ''/Red'', opt_bounds = None\<rparr>,
                   \<lparr>opt_option_value = ''/Blue'', opt_bounds = None\<rparr>]"] o by simp
  have 7: "validate_element_value dropdown_ab ''a'' = Inr None"
    using th[where e = dropdown_ab and v = "''a''" and items = "[\<lparr>mi_option_value = ''a'', mi_display_text = ''A''\<rparr>,
                   \<lparr>mi_option_value = ''b'', mi_display_text = ''B''\<rparr>]"] d by simp
  have 8: "validate_element_value dropdown_ab ''c'' = Inr (Some (Err_dropdown_value ''choice'' ''c'' [''a'', ''b'']))"
    using th[where e = dropdown_ab and v = "''c''" and items = "[\<lparr>mi_option_value = ''a'', mi_display_text = ''A''\<rparr>,
                   \<lparr>mi_option_value = ''b'', mi_display_text = ''B''\<rparr>]"] d by simp
  from 1 2 3 4 5 6 7 8 show ?thesis by blast
qed

lemma is_cjk_code_wide: "is_cjk_code code \<longleftrightarrow> wide_glyph code"
  by (auto simp: is_cjk_code_def wide_glyph_def)

lemma has_cjk_characters_iff: "has_cjk_characters c \<longleftrightarrow> (\<exists>code\<in>set c. wide_glyph code)"
  by (induction c) (auto simp: is_cjk_code_wide)

lemma scan_has_cjk_iff:
  "scan_has_cjk es \<longleftrightarrow>
     (\<exists>e\<in>set es. case fe_text_content e of
          None \<Rightarrow> False
        | Some tc \<Rightarrow> (case tc_content tc of None \<Rightarrow> False | Some c \<Rightarrow> \<exists>code\<in>set c. wide_glyph code))"
  by (induction es) (auto simp: has_cjk_characters_iff split: option.splits)

lemma embedded_glyph_path_not_annotated:
  "snd (embedded_glyph_path env cfg mb) \<noteq> Inr (Annotated anns)"
  by (auto simp: embedded_glyph_path_def apply_text_overlays_with_reportlab_def
           split: prod.splits option.splits sum.splits)

lemma annotation_path_not_embedded:
  "snd (annotation_path cfg mb) \<noteq> Inr (Embedded ps)"
  "Using_embedded_font f \<notin> set (fst (annotation_path cfg mb))"
  by (auto simp: annotation_path_def split: sum.splits)

text \<open>
  Claim C2. The rendering strategy is chosen for the whole document, by the glyph ranges
  alone: when some \<open>content\<close> contains a wide glyph the run takes the embedded-glyph path
  (the font probe followed by the reportlab rendering of every page with text, or by the
  abort of claim C3) and never writes annotations; when no \<open>content\<close> contains one the run
  takes the annotation path and never enters the embedded-glyph path.
\<close>

theorem strategy_selection:
  "(needs_wide_glyphs cfg \<longrightarrow>
      apply_text_overlays env mb cfg = embedded_glyph_path env cfg mb
      \<and> (\<forall>anns. snd (apply_text_overlays env mb cfg) \<noteq> Inr (Annotated anns)))
   \<and> (\<not> needs_wide_glyphs cfg \<longrightarrow>
      apply_text_overlays env mb cfg = annotation_path cfg mb
      \<and> (\<forall>ps. snd (apply_text_overlays env mb cfg) \<noteq> Inr (Embedded ps))
      \<and> (\<forall>f. Using_embedded_font f \<notin> set (fst (apply_text_overlays env mb cfg))))"
proof -
  have s: "scan_has_cjk (field_entries cfg) = needs_wide_glyphs cfg"
    by (simp add: scan_has_cjk_iff needs_wide_glyphs_def)
  show ?thesis
    by (simp add: apply_text_overlays_def s embedded_glyph_path_not_annotated
          annotation_path_not_embedded)
qed

lemma mixed_needs: "needs_wide_glyphs mixed_config"
  by (simp add: needs_wide_glyphs_def mixed_config_def nihao_entry_def hello_entry_def
        empty_text_content_def wide_glyph_def)

lemma hello_needs_not: "\<not> needs_wide_glyphs (one_page_config [hello_entry])"
  by (simp add: needs_wide_glyphs_def one_page_config_def hello_entry_def
        empty_text_content_def wide_glyph_def)

lemma mixed_embedded:
  "embedded_glyph_path linux_noto mixed_config [(400, 200), (400, 200)] =
     ([Using_embedded_font ''NotoSansCJK'', Saved_to_output, Overlay_count_embedded 2],
      Inr (Embedded
        [(0, [\<lparr>ds_font = ''Helvetica'', ds_font_size = 14, ds_fill_color = ''000000'',
               ds_x = 120, ds_y = 140, ds_text = [72, 105]\<rparr>]),
         (1, [\<lparr>ds_font = ''NotoSansCJK'', ds_font_size = 14, ds_fill_color = ''000000'',
               ds_x = 120, ds_y = 140, ds_text = [0x4E2D, 0x6587]\<rparr>])]))"
  by (simp add: mixed_config_def nihao_entry_def hello_entry_def empty_text_content_def
        is_cjk_code_def embedded_glyph_path_def register_cjk_font_def find_noto
        apply_text_overlays_with_reportlab_def pdf_dims_lookup_def convert_example_entry
        make_draw_string_def Let_def) (simp add: linux_noto_def)

lemma hello_annotated:
  "annotation_path (one_page_config [hello_entry]) [(400, 200)] =
     ([Saved_to_output, Overlay_count 1],
      Inr (Annotated [\<lparr>ft_page_number = 0, ft_text = [72, 105], ft_rect = (120, 140, 300, 180),
                        ft_font = ''Arial'', ft_font_size = 14, ft_font_color = ''000000''\<rparr>]))"
  by (simp add: one_page_config_def hello_entry_def empty_text_content_def
        annotation_path_def pdf_dims_lookup_def convert_example_entry
        make_free_text_def Let_def)

theorem strategy_selection_witness:
  "needs_wide_glyphs mixed_config
   \<and> apply_text_overlays linux_noto [(400, 200), (400, 200)] mixed_config =
     ([Using_embedded_font ''NotoSansCJK'', Saved_to_output, Overlay_count_embedded 2],
      Inr (Embedded
        [(0, [\<lparr>ds_font = ''Helvetica'', ds_font_size = 14, ds_fill_color = ''000000'',
               ds_x = 120, ds_y = 140, ds_text = [72, 105]\<rparr>]),
         (1, [\<lparr>ds_font = ''NotoSansCJK'', ds_font_size = 14, ds_fill_color = ''000000'',
               ds_x = 120, ds_y = 140, ds_text = [0x4E2D, 0x6587]\<rparr>])]))
   \<and> \<not> needs_wide_glyphs (one_page_config [hello_entry])
   \<and> apply_text_overlays linux_noto [(400, 200)] (one_page_config [hello_entry]) =
     ([Saved_to_output, Overlay_count 1],
      Inr (Annotated [\<lparr>ft_page_number = 0, ft_text = [72, 105], ft_rect = (120, 140, 300, 180),
                        ft_font = ''Arial'', ft_font_size = 14, ft_font_color = ''000000''\<rparr>]))"
proof -
  have 1: "apply_text_overlays linux_noto [(400, 200), (400, 200)] mixed_config =
           embedded_glyph_path linux_noto mixed_config [(400, 200), (400, 200)]"
    using strategy_selection[of mixed_config linux_noto "[(400, 200), (400, 200)]"] mixed_needs
    by blast
  have 2: "apply_text_overlays linux_noto [(400, 200)] (one_page_config [hello_entry]) =
           annotation_path (one_page_config [hello_entry]) [(400, 200)]"
    using strategy_selection[of "one_page_config [hello_entry]" linux_noto "[(400, 200)]"] hello_needs_not
    by blast
  show ?thesis
    using mixed_needs hello_needs_not by (simp add: 1 2 mixed_embedded hello_annotated)
qed

text \<open>
  Claim C3. When the layout needs wide glyphs and no font is available (the probe of the
  font paths finds none, or the font found fails to register), the run ends with
  \<open>sys.exit(1)\<close> and writes no output; before that it prints the error, the installation
  guidance for each platform and every supported font path.
\<close>

theorem no_font_aborts:
  "needs_wide_glyphs cfg \<and>
   (find_cjk_font env = None \<or>
    (\<exists>font_path font_name. find_cjk_font env = Some (font_path, font_name)
        \<and> \<not> register_ok env font_name font_path)) \<longrightarrow>
   snd (apply_text_overlays env mb cfg) = Inl SystemExit
   \<and> set [Err_cjk_font_missing, Hint_install_font, Hint_macos, Hint_windows, Hint_linux]
        \<subseteq> set (fst (apply_text_overlays env mb cfg))
   \<and> (\<forall>(path, name)\<in>set CJK_FONT_PATHS.
        Supported_path path name \<in> set (fst (apply_text_overlays env mb cfg)))"
proof
  assume a: "needs_wide_glyphs cfg \<and>
   (find_cjk_font env = None \<or>
    (\<exists>font_path font_name. find_cjk_font env = Some (font_path, font_name)
        \<and> \<not> register_ok env font_name font_path))"
  then have s: "scan_has_cjk (field_entries cfg)"
    by (simp add: scan_has_cjk_iff needs_wide_glyphs_def)
  from a have "snd (register_cjk_font env) = None"
    by (auto simp: register_cjk_font_def)
  then obtain printed where r: "register_cjk_font env = (printed, None)"
    by (cases "register_cjk_font env") simp
  show "snd (apply_text_overlays env mb cfg) = Inl SystemExit
   \<and> set [Err_cjk_font_missing, Hint_install_font, Hint_macos, Hint_windows, Hint_linux]
        \<subseteq> set (fst (apply_text_overlays env mb cfg))
   \<and> (\<forall>(path, name)\<in>set CJK_FONT_PATHS.
        Supported_path path name \<in> set (fst (apply_text_overlays env mb cfg)))"
    by (auto simp: apply_text_overlays_def s embedded_glyph_path_def r)
qed

theorem no_font_aborts_witness:
  "needs_wide_glyphs mixed_config
   \<and> find_cjk_font no_fonts = None
   \<and> snd (apply_text_overlays no_fonts [(400, 200), (400, 200)] mixed_config) = Inl SystemExit
   \<and> Hint_linux \<in> set (fst (apply_text_overlays no_fonts [(400, 200), (400, 200)] mixed_config))
   \<and> find_cjk_font broken_font = Some (''C:/Windows/Fonts/simsun.ttc'', ''SimSun'')
   \<and> \<not> register_ok broken_font ''SimSun'' ''C:/Windows/Fonts/simsun.ttc''
   \<and> snd (apply_text_overlays broken_font [(400, 200), (400, 200)] mixed_config) = Inl SystemExit
   \<and> Supported_path ''C:/Windows/Fonts/simsun.ttc'' ''SimSun''
        \<in> set (fst (apply_text_overlays broken_font [(400, 200), (400, 200)] mixed_config))"
proof -
  have f1: "find_cjk_font no_fonts = None"
    by (simp add: find_cjk_font_def CJK_FONT_PATHS_def no_fonts_def)
  have f2: "find_cjk_font broken_font = Some (''C:/Windows/Fonts/simsun.ttc'', ''SimSun'')"
    by (simp add: find_cjk_font_def CJK_FONT_PATHS_def broken_font_def)
  have f3: "\<not> register_ok broken_font ''SimSun'' ''C:/Windows/Fonts/simsun.ttc''"
    by (simp add: broken_font_def)
  have p: "(''C:/Windows/Fonts/simsun.ttc'', ''SimSun'') \<in> set CJK_FONT_PATHS"
    by (simp add: CJK_FONT_PATHS_def)
  have 1: "snd (apply_text_overlays no_fonts [(400, 200), (400, 200)] mixed_config) = Inl SystemExit
     \<and> Hint_linux \<in> set (fst (apply_text_overlays no_fonts [(400, 200), (400, 200)] mixed_config))"
    using no_font_aborts[of mixed_config no_fonts "[(400, 200), (400, 200)]"] mixed_needs f1 by simp
  have 2: "snd (apply_text_overlays broken_font [(400, 200), (400, 200)] mixed_config) = Inl SystemExit
     \<and> Supported_path ''C:/Windows/Fonts/simsun.ttc'' ''SimSun''
        \<in> set (fst (apply_text_overlays broken_font [(400, 200), (400, 200)] mixed_config))"
    using no_font_aborts[of mixed_config broken_font "[(400, 200), (400, 200)]"] mixed_needs f2 f3 p
    by auto
  from mixed_needs f1 f2 f3 1 2 show ?thesis by blast
qed

lemma parse_simple_form: "parse_form_elements simple_form = Inr ([], simple_form_elements)"
  by code_simp

lemma dom_map_of_update:
  "dom (map_of (AList.update k v al)) = insert k (dom (map_of al))"
  by (simp add: dom_map_of_conv_image_fst dom_update)

lemma dom_index_by_id_aux:
  "dom (map_of (foldl (\<lambda>d e. AList.update (el_element_id e) e d) d0 elements)) =
     dom (map_of d0) \<union> el_element_id ` set elements"
proof (induction elements arbitrary: d0)
  case Nil
  show ?case by simp
next
  case (Cons a elements)
  have "dom (map_of (foldl (\<lambda>d e. AList.update (el_element_id e) e d) d0 (a # elements))) =
          insert (el_element_id a) (dom (map_of d0)) \<union> el_element_id ` set elements"
    by (simp add: Cons.IH dom_map_of_update)
  also have "\<dots> = dom (map_of d0) \<union> el_element_id ` set (a # elements)"
    by (simp add: Un_insert_left Un_insert_right)
  finally show ?case .
qed

lemma index_by_id_None:
  "map_of (index_by_id elements) k = None \<longleftrightarrow> k \<notin> el_element_id ` set elements"
  using dom_index_by_id_aux[of "[]" elements] by (auto simp: index_by_id_def domIff)

lemma check_instructions_result:
  "check_instructions m xs h printed = (printed', Inr h') \<Longrightarrow>
   (h \<longrightarrow> h') \<and> (\<not> h' \<longrightarrow> (\<forall>instr\<in>set xs. instruction_passes m instr))"
proof (induction xs arbitrary: h printed)
  case Nil
  then show ?case by simp
next
  case (Cons x xs)
  from Cons.prems show ?case
    by (auto simp: instruction_passes_def split: option.splits if_splits sum.splits dest!: Cons.IH)
qed

text \<open>
  Claim C1. The form filler is atomic. If any instruction of the batch refers to an id that
  is not in the extracted model, or gives a page other than the one recorded for the
  element of that id, or gives a fill value that validation does not accept, the run ends
  in an error and no document is written. A document is written only when every
  instruction passes every check.
\<close>

theorem populate_form_fields_atomic:
  "(parse_form_elements rd = Inr (warnings, elements) \<and> instr \<in> set form_data \<and>
      (fi_element_id instr \<notin> el_element_id ` set elements
       \<or> (\<exists>el. map_of (index_by_id elements) (fi_element_id instr) = Some el
               \<and> el_page_num el \<noteq> Some (fi_page_num instr))
       \<or> (\<exists>el v. map_of (index_by_id elements) (fi_element_id instr) = Some el
               \<and> fi_fill_value instr = Some v \<and> validate_element_value el v \<noteq> Inr None))
      \<longrightarrow> (\<exists>err. snd (populate_form_fields rd form_data) = Inl err))
   \<and> (snd (populate_form_fields rd form_data) = Inr out \<longrightarrow>
        (\<exists>warnings elements. parse_form_elements rd = Inr (warnings, elements)
           \<and> (\<forall>instr\<in>set form_data. instruction_passes (index_by_id elements) instr)))"
proof -
  have only: "\<exists>warnings elements. parse_form_elements rd = Inr (warnings, elements)
           \<and> (\<forall>instr\<in>set form_data. instruction_passes (index_by_id elements) instr)"
    if w: "snd (populate_form_fields rd form_data) = Inr out" for out
  proof -
    from w obtain warnings elements where p: "parse_form_elements rd = Inr (warnings, elements)"
      by (auto simp: populate_form_fields_def Let_def split: sum.splits prod.splits)
    from w p obtain printed where
      "check_instructions (index_by_id elements) form_data False [] = (printed, Inr False)"
      by (auto simp: populate_form_fields_def Let_def split: sum.splits prod.splits if_splits)
    from check_instructions_result[OF this] p show ?thesis by simp
  qed
  have abort: "\<exists>err. snd (populate_form_fields rd form_data) = Inl err"
    if p: "parse_form_elements rd = Inr (warnings, elements)" and i: "instr \<in> set form_data"
      and bad: "fi_element_id instr \<notin> el_element_id ` set elements
       \<or> (\<exists>el. map_of (index_by_id elements) (fi_element_id instr) = Some el
               \<and> el_page_num el \<noteq> Some (fi_page_num instr))
       \<or> (\<exists>el v. map_of (index_by_id elements) (fi_element_id instr) = Some el
               \<and> fi_fill_value instr = Some v \<and> validate_element_value el v \<noteq> Inr None)"
  proof (cases "snd (populate_form_fields rd form_data)")
    case (Inl err)
    then show ?thesis by blast
  next
    case (Inr out)
    from only[OF Inr] p i have "instruction_passes (index_by_id elements) instr" by auto
    with bad show ?thesis
      by (auto simp: instruction_passes_def index_by_id_None[symmetric] split: option.splits)
  qed
  from only abort show ?thesis by blast
qed

lemma index_simple_form:
  "index_by_id simple_form_elements =
     [(''name'', simple_form_elements ! 0), (''agree'', simple_form_elements ! 1)]"
  by (simp add: index_by_id_def simple_form_elements_def new_element_def)

theorem populate_form_fields_atomic_witness:
  "parse_form_elements simple_form = Inr ([], simple_form_elements)
   \<and> \<lparr>fi_element_id = ''agree'', fi_page_num = 2, fi_fill_value = Some ''/Yes''\<rparr> \<in> set wrong_page_batch
   \<and> map_of (index_by_id simple_form_elements) ''agree'' = Some (simple_form_elements ! 1)
   \<and> el_page_num (simple_form_elements ! 1) \<noteq> Some 2
   \<and> (\<exists>err. snd (populate_form_fields simple_form wrong_page_batch) = Inl err)
   \<and> populate_form_fields simple_form wrong_page_batch = ([Err_wrong_page ''agree'' 2 1], Inl SystemExit)
   \<and> populate_form_fields simple_form good_batch =
        ([], Inr \<lparr>fp_updates = [(0, [(''name'', ''Alice''), (''agree'', ''/Yes'')])],
                  fp_need_appearances = True\<rparr>)
   \<and> instruction_passes (index_by_id simple_form_elements) (good_batch ! 1)"
proof -
  let ?i = "\<lparr>fi_element_id = ''agree'', fi_page_num = 2, fi_fill_value = Some ''/Yes''\<rparr>"
  have h1: "?i \<in> set wrong_page_batch" by (simp add: wrong_page_batch_def)
  have h2: "map_of (index_by_id simple_form_elements) ''agree'' = Some (simple_form_elements ! 1)"
    by (simp add: index_simple_form)
  have h3: "el_page_num (simple_form_elements ! 1) \<noteq> Some 2"
    by (simp add: simple_form_elements_def new_element_def)
  have c: "\<exists>err. snd (populate_form_fields simple_form wrong_page_batch) = Inl err"
    using populate_form_fields_atomic[of simple_form "[]" simple_form_elements ?i wrong_page_batch]
      parse_simple_form h1 h2 h3 by auto
  have e1: "populate_form_fields simple_form wrong_page_batch = ([Err_wrong_page ''agree'' 2 1], Inl SystemExit)"
    by code_simp
  have e2: "populate_form_fields simple_form good_batch =
        ([], Inr \<lparr>fp_updates = [(0, [(''name'', ''Alice''), (''agree'', ''/Yes'')])],
                  fp_need_appearances = True\<rparr>)"
    by code_simp
  have "\<forall>instr\<in>set good_batch. instruction_passes (index_by_id simple_form_elements) instr"
    using populate_form_fields_atomic[of simple_form "[]" simple_form_elements ?i good_batch]
      parse_simple_form e2 by auto
  then have g: "instruction_passes (index_by_id simple_form_elements) (good_batch ! 1)"
    by (simp add: good_batch_def)
  from parse_simple_form h1 h2 h3 c e1 e2 g show ?thesis by blast
qed

lemma parse_stacked_form: "parse_form_elements stacked_form = Inr ([], stacked_elements)"
  by code_simp

lemma parse_radio_form: "parse_form_elements radio_form = Inr ([], radio_elements)"
  by code_simp

text \<open>The key that \<open>sort_key_fn\<close> computes, when it computes one.\<close>

lemma sort_key_fn_Inr:
  "sort_key_fn e = Inr k \<Longrightarrow> k = (el_page_num e, - b1 (position e), b0 (position e))"
  by (auto simp: sort_key_fn_def position_def Let_def split: option.splits list.splits)

lemma with_keys_Inr:
  "with_keys xs = Inr kes \<Longrightarrow>
   map snd kes = xs \<and>
   (\<forall>p\<in>set kes. fst p = (el_page_num (snd p), - b1 (position (snd p)), b0 (position (snd p))))"
proof (induction xs arbitrary: kes)
  case Nil
  then show ?case by simp
next
  case (Cons x xs)
  from Cons.prems show ?case
    by (auto split: sum.splits dest!: Cons.IH sort_key_fn_Inr)
qed

lemma sort_elements_Inr:
  assumes "sort_elements xs = Inr ys"
  shows "sorted (map (\<lambda>e. (el_page_num e, - b1 (position e), b0 (position e))) ys)"
    and "set ys = set xs"
proof -
  let ?k = "\<lambda>e. (el_page_num e, - b1 (position e), b0 (position e))"
  from assms obtain kes where kes: "with_keys xs = Inr kes" and ys: "ys = map snd (sort_key fst kes)"
    by (auto simp: sort_elements_def split: sum.splits)
  from with_keys_Inr[OF kes] have m: "map snd kes = xs" and k: "\<forall>p\<in>set kes. fst p = ?k (snd p)"
    by blast+
  have "map ?k ys = map (\<lambda>p. ?k (snd p)) (sort_key fst kes)" by (simp add: ys)
  also have "\<dots> = map fst (sort_key fst kes)"
    using k by (intro map_cong) auto
  finally show "sorted (map ?k ys)" by simp
  have "set ys = snd ` set kes" by (simp add: ys)
  also have "\<dots> = set (map snd kes)" by simp
  finally show "set ys = set xs" by (simp add: m)
qed

text \<open>Every published element has a page: the located leaves, and the option groups.\<close>

lemma locate_elements_located:
  "locate_elements xs = (located, printed) \<Longrightarrow> \<forall>e\<in>set located. el_page_num e \<noteq> None"
proof (induction xs arbitrary: located printed)
  case Nil
  then show ?case by simp
next
  case (Cons x xs)
  obtain l p where r: "locate_elements xs = (l, p)" by (cases "locate_elements xs")
  from Cons.IH[OF r] Cons.prems r show ?case
    by (auto split: if_splits)
qed

lemma set_map_entry:
  "p \<in> set (AList.map_entry k f xs) \<Longrightarrow> p \<in> set xs \<or> (\<exists>v. (k, v) \<in> set xs \<and> p = (k, f v))"
  by (induction xs) (auto split: if_splits)

lemma groups_located_map_entry:
  assumes "groups_located ogs" and "\<And>g. el_page_num (f g) = el_page_num g"
  shows "groups_located (AList.map_entry k f ogs)"
  unfolding groups_located_def
proof
  fix p assume "p \<in> set (AList.map_entry k f ogs)"
  then consider "p \<in> set ogs" | v where "(k, v) \<in> set ogs" "p = (k, f v)"
    using set_map_entry by fastforce
  then show "el_page_num (snd p) \<noteq> None"
  proof cases
    case 1
    with assms(1) show ?thesis by (simp add: groups_located_def)
  next
    case 2
    from assms(1) 2(1) have "el_page_num (snd (k, v)) \<noteq> None"
      unfolding groups_located_def by blast
    with 2(2) assms(2) show ?thesis by simp
  qed
qed

lemma groups_located_new:
  "groups_located ogs \<Longrightarrow> groups_located (ogs @ [(k, new_option_group k pn)])"
  by (simp add: groups_located_def new_option_group_def)

lemma place_annotations_located:
  "groups_located (snd st) \<Longrightarrow> groups_located (snd (place_annotations pog pn anns st))"
proof (induction anns arbitrary: st)
  case Nil
  then show ?case by simp
next
  case (Cons ann anns)
  obtain ebi ogs where st: "st = (ebi, ogs)" by (cases st)
  from Cons.prems st have g: "groups_located ogs" by simp
  have a: "groups_located (AList.map_entry k
              (\<lambda>g. g\<lparr>el_available_options := h (el_available_options g)\<rparr>) ogs)" for k h
    using g by (rule groups_located_map_entry) simp
  have b: "groups_located (AList.map_entry k
              (\<lambda>g. g\<lparr>el_available_options := h (el_available_options g)\<rparr>)
              (ogs @ [(k, new_option_group k pn)]))" for k h
    using groups_located_new[OF g] by (rule groups_located_map_entry) simp
  show ?case
    unfolding st
    by (auto simp: Let_def g a b split: option.splits intro!: Cons.IH)
qed

lemma place_pages_located:
  "groups_located (snd st) \<Longrightarrow> groups_located (snd (place_pages pog idx pgs st))"
  by (induction pgs arbitrary: idx st) (simp_all add: place_annotations_located)

lemma parse_form_elements_sorted:
  assumes "parse_form_elements rd = Inr (printed, elements)"
  shows "sorted (map (\<lambda>e. (el_page_num e, - b1 (position e), b0 (position e))) elements)"
    and "\<forall>e\<in>set elements. el_page_num e \<noteq> None"
proof -
  from assms obtain fields' ebi pog pr ebi' ogs located pr' where
    c: "collect_fields fields' [] {} [] = Inr (ebi, pog, pr)"
    and pp: "place_pages pog 0 (rd_pages rd) (ebi, []) = (ebi', ogs)"
    and le: "locate_elements (map snd ebi') = (located, pr')"
    and so: "sort_elements (located @ map snd ogs) = Inr elements"
    by (auto simp: parse_form_elements_def split: option.splits sum.splits prod.splits)
  from sort_elements_Inr[OF so]
  have sk: "sorted (map (\<lambda>e. (el_page_num e, - b1 (position e), b0 (position e))) elements)"
    and se: "set elements = set (located @ map snd ogs)" by blast+
  from sk show "sorted (map (\<lambda>e. (el_page_num e, - b1 (position e), b0 (position e))) elements)" .
  have "groups_located (snd (place_pages pog 0 (rd_pages rd) (ebi, [])))"
    by (rule place_pages_located) (simp add: groups_located_def)
  then have "groups_located ogs" by (simp add: pp)
  with locate_elements_located[OF le] show "\<forall>e\<in>set elements. el_page_num e \<noteq> None"
    unfolding se groups_located_def by auto
qed

lemma key_le_of_keys:
  assumes "el_page_num a \<noteq> None" "el_page_num b \<noteq> None"
    and "(el_page_num a, - b1 (position a), b0 (position a))
           \<le> (el_page_num b, - b1 (position b), b0 (position b))"
  shows "key_le a b"
  using assms by (auto simp: key_le_def page_of_def less_eq_prod_def less_prod_def)

lemma parse_tall_short_form:
  "parse_form_elements tall_short_form = Inr ([], short_tall_elements)"
  by code_simp

text \<open>
  Claim C8, as stated, fails in two ways. The order of the published list is not strict:
  two fields whose annotations have the same rectangle on the same page are both
  published, with equal keys. And the vertical position of the key is \<open>bounds[1]\<close>, the
  second number of the rectangle, which for a \<open>/Rect\<close> \<open>[llx, lly, urx, ury]\<close> is its lower
  edge and not \<open>top_y\<close>: a field from \<open>y = 150\<close> to \<open>y = 160\<close> is published before a field
  from \<open>y = 100\<close> to \<open>y = 200\<close> on the same page, whose upper edge is higher.
\<close>

theorem strict_order_counterexample:
  "parse_form_elements stacked_form = Inr ([], stacked_elements)
   \<and> \<not> sorted_wrt claimed_key_less stacked_elements
   \<and> \<not> sorted_wrt key_less stacked_elements
   \<and> parse_form_elements tall_short_form = Inr ([], short_tall_elements)
   \<and> \<not> sorted_wrt claimed_key_le short_tall_elements"
proof -
  have 1: "\<not> sorted_wrt claimed_key_less stacked_elements"
    by (simp add: stacked_elements_def claimed_key_less_def top_y_def page_of_def position_def
          bounds_or_default_def new_element_def)
  have 2: "\<not> sorted_wrt key_less stacked_elements"
    by (simp add: stacked_elements_def key_less_def page_of_def position_def bounds_or_default_def
          new_element_def)
  have 3: "\<not> sorted_wrt claimed_key_le short_tall_elements"
    by (simp add: short_tall_elements_def claimed_key_le_def top_y_def page_of_def position_def
          bounds_or_default_def new_element_def)
  from parse_stacked_form parse_tall_short_form 1 2 3 show ?thesis by blast
qed

text \<open>
  Claim C8, amended. The published list is sorted by page ascending, then by the second
  number \<open>bounds[1]\<close> of the rectangle descending (the lower edge of a \<open>/Rect\<close>
  \<open>[llx, lly, urx, ury]\<close>, not its upper edge), then by its first number \<open>bounds[0]\<close>
  ascending: of two published elements the earlier one has the smaller or an equal key
  \<open>(page_num, -bounds[1], bounds[0])\<close>, and elements with equal keys can occur. Every
  published element has a page, and the position of an option group is that of its first
  recorded option.
\<close>

theorem published_order:
  "parse_form_elements rd = Inr (printed, elements) \<longrightarrow>
     sorted_wrt key_le elements
     \<and> (\<forall>e\<in>set elements. \<exists>p. el_page_num e = Some p)
     \<and> (\<forall>e\<in>set elements. \<forall>first_option others.
           el_available_options e = Some (first_option # others) \<longrightarrow>
           position e = bounds_or_default (opt_bounds first_option))"
proof
  assume p: "parse_form_elements rd = Inr (printed, elements)"
  let ?k = "\<lambda>e. (el_page_num e, - b1 (position e), b0 (position e))"
  from parse_form_elements_sorted[OF p]
  have s: "sorted (map ?k elements)" and l: "\<forall>e\<in>set elements. el_page_num e \<noteq> None"
    by blast+
  from s have "sorted_wrt (\<lambda>a b. ?k a \<le> ?k b) elements"
    by (simp add: sorted_map)
  then have "sorted_wrt key_le elements"
    by (rule sorted_wrt_mono_rel[rotated]) (use l in \<open>auto intro: key_le_of_keys\<close>)
  moreover have "\<forall>e\<in>set elements. \<exists>p. el_page_num e = Some p" using l by auto
  moreover have "\<forall>e\<in>set elements. \<forall>first_option others.
           el_available_options e = Some (first_option # others) \<longrightarrow>
           position e = bounds_or_default (opt_bounds first_option)"
    by (simp add: position_def)
  ultimately show "sorted_wrt key_le elements
     \<and> (\<forall>e\<in>set elements. \<exists>p. el_page_num e = Some p)
     \<and> (\<forall>e\<in>set elements. \<forall>first_option others.
           el_available_options e = Some (first_option # others) \<longrightarrow>
           position e = bounds_or_default (opt_bounds first_option))" by blast
qed

theorem published_order_witness:
  "parse_form_elements radio_form = Inr ([], radio_elements)
   \<and> sorted_wrt key_le radio_elements
   \<and> key_le (radio_elements ! 1) (radio_elements ! 2)
   \<and> position (radio_elements ! 1) = (50, 600, 60, 610)"
proof -
  have s: "sorted_wrt key_le radio_elements"
    using published_order[of radio_form "[]" radio_elements] parse_radio_form by blast
  then have k: "key_le (radio_elements ! 1) (radio_elements ! 2)"
    by (simp add: radio_elements_def)
  have "radio_elements ! 1 \<in> set radio_elements" by (simp add: radio_elements_def)
  moreover have "el_available_options (radio_elements ! 1) =
      Some (\<lparr>opt_option_value = ''/Red'', opt_bounds = Some (50, 600, 60, 610)\<rparr> #
            [\<lparr>opt_option_value = ''/Blue'', opt_bounds = Some (80, 600, 90, 610)\<rparr>])"
    by (simp add: radio_elements_def new_element_def)
  ultimately have "position (radio_elements ! 1) =
      bounds_or_default (opt_bounds \<lparr>opt_option_value = ''/Red'', opt_bounds = Some (50, 600, 60, 610)\<rparr>)"
    using published_order[of radio_form "[]" radio_elements] parse_radio_form by blast
  then have q: "position (radio_elements ! 1) = (50, 600, 60, 610)"
    by (simp add: bounds_or_default_def)
  from parse_radio_form s k q show ?thesis by blast
qed

lemma parse_button_form: "parse_form_elements button_form = Inr ([], button_elements)"
  by code_simp

text \<open>
  Claim C7 (the code departs from it). The extractor publishes a button field whose state
  list does not have exactly two entries as a \<open>toggle_box\<close> without \<open>on_value\<close> and
  \<open>off_value\<close>. For such an element validation neither accepts a fill value nor returns a
  diagnostic: whatever the value, it raises KeyError.
\<close>

theorem validate_element_value_raises:
  "parse_form_elements button_form = Inr ([], button_elements)
   \<and> el_element_type (button_elements ! 1) = ''toggle_box''
   \<and> (\<forall>v. validate_element_value (button_elements ! 0) v = Inl KeyError)
   \<and> (\<forall>v. validate_element_value (button_elements ! 1) v = Inl KeyError)"
  using parse_button_form
  by (simp add: validate_element_value_def button_elements_def new_element_def)

text \<open>
  Claim C9 (the code departs from it). A button field whose state list does not have
  exactly two entries is published as a \<open>toggle_box\<close> that carries neither \<open>on_value\<close> nor
  \<open>off_value\<close>; validating a fill value for it raises KeyError, which ends the form filler
  without a diagnostic.
\<close>

theorem toggle_box_without_values:
  "parse_form_elements button_form = Inr ([], button_elements)
   \<and> el_element_type (button_elements ! 0) = ''toggle_box''
   \<and> el_on_value (button_elements ! 0) = None
   \<and> el_off_value (button_elements ! 0) = None
   \<and> el_element_type (button_elements ! 1) = ''toggle_box''
   \<and> el_on_value (button_elements ! 1) = None
   \<and> el_off_value (button_elements ! 1) = None
   \<and> validate_element_value (button_elements ! 0) ''/Yes'' = Inl KeyError
   \<and> populate_form_fields button_form
        [\<lparr>fi_element_id = ''tri'', fi_page_num = 1, fi_fill_value = Some ''/Yes''\<rparr>]
        = ([], Inl KeyError)"
proof -
  have p: "parse_form_elements button_form = Inr ([], button_elements)" by code_simp
  have f: "populate_form_fields button_form
        [\<lparr>fi_element_id = ''tri'', fi_page_num = 1, fi_fill_value = Some ''/Yes''\<rparr>]
        = ([], Inl KeyError)" by code_simp
  have v: "validate_element_value (button_elements ! 0) ''/Yes'' = Inl KeyError"
    by (simp add: validate_element_value_def button_elements_def new_element_def)
  from p f v show ?thesis
    by (simp add: button_elements_def new_element_def)
qed

end
